theory Spec2Isabelle
  imports Main
begin

section \<open>Python strings\<close>

text \<open>
  A Python \<^verbatim>\<open>str\<close> is a sequence of Unicode code points, and \<^verbatim>\<open>len\<close>,
  \<^verbatim>\<open>strip\<close> and \<^verbatim>\<open>re\<close> all work on code points. A string is therefore a
  list of natural numbers here; \<open>py\<close> turns an ASCII literal into that form.
\<close>

type_synonym pychar = nat
type_synonym pystr = "nat list"

definition py :: "string \<Rightarrow> pystr" where
  "py s = map of_char s"

text \<open>
  \<^verbatim>\<open>str.isspace\<close> of one character: the code points CPython lists as whitespace
  (U+0009..U+000D, U+001C..U+0020, U+0085, U+00A0, U+1680, U+2000..U+200A, U+2028, U+2029,
  U+202F, U+205F, U+3000). \<^verbatim>\<open>str.strip()\<close> without argument removes them from both ends.
\<close>

definition isspace :: "pychar \<Rightarrow> bool" where
  "isspace c \<longleftrightarrow>
     (9 \<le> c \<and> c \<le> 13) \<or> (28 \<le> c \<and> c \<le> 32) \<or> c = 133 \<or> c = 160 \<or> c = 5760 \<or>
     (8192 \<le> c \<and> c \<le> 8202) \<or> c = 8232 \<or> c = 8233 \<or> c = 8239 \<or> c = 8287 \<or> c = 12288"

definition lstrip :: "pystr \<Rightarrow> pystr" where
  "lstrip s = dropWhile isspace s"

definition rstrip :: "pystr \<Rightarrow> pystr" where
  "rstrip s = rev (dropWhile isspace (rev s))"

definition strip :: "pystr \<Rightarrow> pystr" where
  "strip s = rstrip (lstrip s)"

text \<open>\<^verbatim>\<open>s.startswith(p)\<close>, \<^verbatim>\<open>s.endswith(p)\<close> and the substring test \<^verbatim>\<open>p in s\<close>.\<close>

definition startswith :: "pystr \<Rightarrow> pystr \<Rightarrow> bool" where
  "startswith s p \<longleftrightarrow> take (length p) s = p"

definition endswith :: "pystr \<Rightarrow> pystr \<Rightarrow> bool" where
  "endswith s p \<longleftrightarrow> length p \<le> length s \<and> drop (length s - length p) s = p"

fun py_in :: "pystr \<Rightarrow> pystr \<Rightarrow> bool" where
  "py_in p [] \<longleftrightarrow> p = []"
| "py_in p (c # s) \<longleftrightarrow> startswith (c # s) p \<or> py_in p s"

text \<open>\<^verbatim>\<open>s.split(sep)[0]\<close>: the part of \<open>s\<close> before the first occurrence of \<open>sep\<close>.\<close>

fun split_first :: "pystr \<Rightarrow> pystr \<Rightarrow> pystr" where
  "split_first sep [] = []"
| "split_first sep (c # s) = (if startswith (c # s) sep then [] else c # split_first sep s)"

text \<open>
  \<^verbatim>\<open>str.lower\<close> on ASCII text. Its only arguments in the modelled code are strings that
  have matched the URL pattern, whose character classes are all ASCII.
\<close>

definition lower :: "pystr \<Rightarrow> pystr" where
  "lower s = map (\<lambda>c. if 65 \<le> c \<and> c \<le> 90 then c + 32 else c) s"

text \<open>\<^verbatim>\<open>str(n)\<close> of an integer: its decimal digits, with a sign.\<close>

fun str_nat :: "nat \<Rightarrow> pystr" where
  "str_nat n = (if n < 10 then [48 + n] else str_nat (n div 10) @ [48 + n mod 10])"

declare str_nat.simps [simp del]

definition str_int :: "int \<Rightarrow> pystr" where
  "str_int i = (if i < 0 then 45 # str_nat (nat (- i)) else str_nat (nat i))"


section \<open>Regular expressions\<close>

text \<open>
  The fragment of \<^verbatim>\<open>re\<close> the validators use: character classes (lists of code point
  ranges), sequence, alternation and repetition. Matching is by derivatives.
\<close>

datatype regex =
    Never
  | Eps
  | Cls "(pychar \<times> pychar) list"
  | Seq regex regex
  | Alt regex regex
  | Star regex

definition in_class :: "(pychar \<times> pychar) list \<Rightarrow> pychar \<Rightarrow> bool" where
  "in_class items c \<longleftrightarrow> list_ex (\<lambda>(lo, hi). lo \<le> c \<and> c \<le> hi) items"

definition Lit :: "pychar \<Rightarrow> regex" where
  "Lit c = Cls [(c, c)]"

definition Str :: "pystr \<Rightarrow> regex" where
  "Str s = foldr (\<lambda>c r. Seq (Lit c) r) s Eps"

definition Plus :: "regex \<Rightarrow> regex" where
  "Plus r = Seq r (Star r)"

definition Opt :: "regex \<Rightarrow> regex" where
  "Opt r = Alt r Eps"

fun nullable :: "regex \<Rightarrow> bool" where
  "nullable Never = False"
| "nullable Eps = True"
| "nullable (Cls items) = False"
| "nullable (Seq r s) = (nullable r \<and> nullable s)"
| "nullable (Alt r s) = (nullable r \<or> nullable s)"
| "nullable (Star r) = True"

fun deriv :: "pychar \<Rightarrow> regex \<Rightarrow> regex" where
  "deriv c Never = Never"
| "deriv c Eps = Never"
| "deriv c (Cls items) = (if in_class items c then Eps else Never)"
| "deriv c (Seq r s) =
     (if nullable r then Alt (Seq (deriv c r) s) (deriv c s) else Seq (deriv c r) s)"
| "deriv c (Alt r s) = Alt (deriv c r) (deriv c s)"
| "deriv c (Star r) = Seq (deriv c r) (Star r)"

fun matches :: "regex \<Rightarrow> pystr \<Rightarrow> bool" where
  "matches r [] = nullable r"
| "matches r (c # s) = matches (deriv c r) s"

text \<open>
  \<^verbatim>\<open>re.match('^' + r + '$', s)\<close>: the match starts at the beginning and \<^verbatim>\<open>$\<close> holds
  at the end of the string or just before a newline that ends it.
\<close>

definition re_match_anchored :: "regex \<Rightarrow> pystr \<Rightarrow> bool" where
  "re_match_anchored r s \<longleftrightarrow>
     matches r s \<or> (s \<noteq> [] \<and> last s = 10 \<and> matches r (butlast s))"


section \<open>Paths\<close>

text \<open>
  \<^verbatim>\<open>pathlib\<close> on POSIX. A path is its root (\<^verbatim>\<open>''\<close>, \<^verbatim>\<open>'/'\<close> or \<^verbatim>\<open>'//'\<close>) and its
  names; parsing a string drops empty and \<^verbatim>\<open>.\<close> components and keeps \<^verbatim>\<open>..\<close>.
\<close>

datatype path = Path (root: pystr) (names: "pystr list")


section \<open>Exceptions\<close>

text \<open>
  One constructor of \<open>validation_reason\<close> for each \<^verbatim>\<open>raise ValidationError\<close> of
  \<^verbatim>\<open>validators.py\<close>, carrying the values its message interpolates.
\<close>

datatype validation_reason =
    NotNonEmptyString
  | EmptyOrWhitespace
  | TooLong nat int
  | InvalidCharacters pystr
  | PathTraversal pystr
  | NullByte
  | ShellMetacharacters "pychar list"
  | OutsideBaseDirectory path path
  | DoesNotExist path
  | BranchEmpty
  | BranchTooLong nat
  | BranchInvalid pystr
  | BranchBadStart
  | BranchLockSuffix
  | BranchDotDot
  | UrlEmpty
  | UrlInvalidFormat pystr
  | UrlSchemeNotAllowed pystr
  | UrlLocal

datatype py_exception =
    ValidationError validation_reason
  | ValueError pystr
  | ReError pystr
  | OSError pystr
  | CommandExecutionError pystr


section \<open>validators.py\<close>

subsection \<open>Compiling a character class\<close>

text \<open>
  The body of a \<^verbatim>\<open>[...]\<close> set as \<^verbatim>\<open>re\<close> parses it, for bodies without escapes and
  brackets: a character followed by \<^verbatim>\<open>-\<close> and another character is a range, and a range
  whose end is below its start is the error "bad character range"; a \<^verbatim>\<open>-\<close> before the
  closing bracket is a literal.
\<close>

fun parse_set :: "pystr \<Rightarrow> py_exception + (pychar \<times> pychar) list" where
  "parse_set [] = Inr []"
| "parse_set [c] = Inr [(c, c)]"
| "parse_set (c # d # rest) =
     (if d = 45 then
        (case rest of
           [] \<Rightarrow> Inr [(c, c), (45, 45)]
         | e # rest' \<Rightarrow>
             if e < c then Inl (ReError (py ''bad character range '' @ [c, 45, e]))
             else (case parse_set rest' of
                     Inl err \<Rightarrow> Inl err
                   | Inr items \<Rightarrow> Inr ((c, e) # items)))
      else (case parse_set (d # rest) of
              Inl err \<Rightarrow> Inl err
            | Inr items \<Rightarrow> Inr ((c, c) # items)))"

text \<open>\<^verbatim>\<open>re.match(f'^[{body}]+$', s)\<close>, as a truth value, or the error of compiling it.\<close>

definition re_match_charset :: "pystr \<Rightarrow> pystr \<Rightarrow> py_exception + bool" where
  "re_match_charset body s =
     (case parse_set body of
        Inl err \<Rightarrow> Inl err
      | Inr items \<Rightarrow> Inr (re_match_anchored (Plus (Cls items)) s))"

subsection \<open>validate_identifier\<close>

definition allowed_chars :: "bool \<Rightarrow> bool \<Rightarrow> bool \<Rightarrow> pystr" where
  "allowed_chars allow_dash allow_underscore allow_slash =
     py ''a-zA-Z0-9''
     @ (if allow_underscore then py ''_'' else [])
     @ (if allow_dash then py ''-'' else [])
     @ (if allow_slash then py ''/'' else [])"

text \<open>
  The blocked set \<^verbatim>\<open>;&|`$(){}[]<>*?'"\\<close>, by code point:
  \<^verbatim>\<open>; & | ` $ ( ) { } [ ] < > * ? ' " \\<close>.
\<close>

definition dangerous_chars :: "pychar list" where
  "dangerous_chars =
     [59, 38, 124, 96, 36, 40, 41, 123, 125, 91, 93, 60, 62, 42, 63, 39, 34, 92]"

text \<open>
  The parameter \<^verbatim>\<open>name\<close> only appears in messages and is left out. The value is a
  \<^verbatim>\<open>str\<close> by its type, so \<^verbatim>\<open>not value or not isinstance(value, str)\<close> is
  \<^verbatim>\<open>value == ''\<close>.
\<close>

definition validate_identifier ::
  "pystr \<Rightarrow> int \<Rightarrow> bool \<Rightarrow> bool \<Rightarrow> bool \<Rightarrow> py_exception + pystr" where
  "validate_identifier value0 max_length allow_dash allow_underscore allow_slash =
     (if value0 = [] then Inl (ValidationError NotNonEmptyString)
      else
        let val = strip value0 in
        if val = [] then Inl (ValidationError EmptyOrWhitespace)
        else if int (length val) > max_length
          then Inl (ValidationError (TooLong (length val) max_length))
        else
          (case re_match_charset (allowed_chars allow_dash allow_underscore allow_slash) val of
             Inl err \<Rightarrow> Inl err
           | Inr ok \<Rightarrow>
               if \<not> ok then Inl (ValidationError (InvalidCharacters val))
               else if py_in (py ''..'') val then Inl (ValidationError (PathTraversal val))
               else if py_in [0] val then Inl (ValidationError NullByte)
               else
                 let found_dangerous = filter (\<lambda>c. c \<in> set dangerous_chars) val in
                 if found_dangerous \<noteq> []
                   then Inl (ValidationError (ShellMetacharacters found_dangerous))
                 else Inr val))"

subsection \<open>validate_branch_name\<close>

definition validate_branch_name :: "pystr \<Rightarrow> py_exception + pystr" where
  "validate_branch_name branch0 =
     (if branch0 = [] \<or> strip branch0 = [] then Inl (ValidationError BranchEmpty)
      else
        let branch = strip branch0 in
        if length branch > 255 then Inl (ValidationError (BranchTooLong (length branch)))
        else
          (case re_match_charset (py ''a-zA-Z0-9/_-'') branch of
             Inl err \<Rightarrow> Inl err
           | Inr ok \<Rightarrow>
               if \<not> ok then Inl (ValidationError (BranchInvalid branch))
               else if startswith branch (py ''.'') \<or> startswith branch (py ''/'')
                 then Inl (ValidationError BranchBadStart)
               else if endswith branch (py ''.lock'') then Inl (ValidationError BranchLockSuffix)
               else if py_in (py ''..'') branch then Inl (ValidationError BranchDotDot)
               else Inr branch))"

subsection \<open>validate_url\<close>

text \<open>
  The pattern \<^verbatim>\<open>^(https?|git)://[a-zA-Z0-9.-]+(/[a-zA-Z0-9._~:/?#[\]@!$&\'()*+,;=-]*)?$\<close>.
  The classes are written as code point ranges: the domain class is letters, digits,
  \<^verbatim>\<open>.\<close> and \<^verbatim>\<open>-\<close>; the path class adds
  \<^verbatim>\<open>_ ~ : / ? # [ ] @ ! $ & ' ( ) * + , ; =\<close>.
\<close>

definition url_domain_class :: "(pychar \<times> pychar) list" where
  "url_domain_class = [(97, 122), (65, 90), (48, 57), (46, 46), (45, 45)]"

definition url_path_class :: "(pychar \<times> pychar) list" where
  "url_path_class =
     [(97, 122), (65, 90), (48, 57), (46, 46), (95, 95), (126, 126), (58, 58), (47, 47),
      (63, 63), (35, 35), (91, 91), (93, 93), (64, 64), (33, 33), (36, 36), (38, 38),
      (39, 39), (40, 40), (41, 41), (42, 42), (43, 43), (44, 44), (59, 59), (61, 61),
      (45, 45)]"

definition url_pattern :: regex where
  "url_pattern =
     Seq (Alt (Seq (Str (py ''http'')) (Opt (Lit 115))) (Str (py ''git'')))
       (Seq (Str (py ''://''))
         (Seq (Plus (Cls url_domain_class))
           (Opt (Seq (Lit 47) (Star (Cls url_path_class))))))"

definition validate_url :: "pystr \<Rightarrow> pystr list option \<Rightarrow> py_exception + pystr" where
  "validate_url url0 allowed_schemes0 =
     (let allowed_schemes = (case allowed_schemes0 of None \<Rightarrow> [py ''https''] | Some l \<Rightarrow> l) in
      if url0 = [] \<or> strip url0 = [] then Inl (ValidationError UrlEmpty)
      else
        let url = strip url0 in
        if \<not> re_match_anchored url_pattern url
          then Inl (ValidationError (UrlInvalidFormat url))
        else
          let scheme = lower (split_first (py ''://'') url) in
          if scheme \<notin> set allowed_schemes
            then Inl (ValidationError (UrlSchemeNotAllowed scheme))
          else if py_in (py ''localhost'') (lower url) \<or> py_in (py ''127.0.0.1'') url
            then Inl (ValidationError UrlLocal)
          else Inr url)"


subsection \<open>validate_path\<close>

fun split_sep :: "pychar \<Rightarrow> pystr \<Rightarrow> pystr list" where
  "split_sep sep [] = [[]]"
| "split_sep sep (c # s) =
     (case split_sep sep s of
        [] \<Rightarrow> (if c = sep then [[], []] else [[c]])
      | x # xs \<Rightarrow> (if c = sep then [] # x # xs else (c # x) # xs))"

definition path_of :: "pystr \<Rightarrow> path" where
  "path_of s =
     (let lead = length (takeWhile (\<lambda>c. c = 47) s);
          rt = (if lead = 0 then [] else if lead = 2 then py ''//'' else py ''/'')
      in Path rt (filter (\<lambda>x. x \<noteq> [] \<and> x \<noteq> py ''.'') (split_sep 47 (drop lead s))))"

definition is_absolute :: "path \<Rightarrow> bool" where
  "is_absolute p \<longleftrightarrow> root p \<noteq> []"

text \<open>\<^verbatim>\<open>base / s\<close> for a string \<open>s\<close>: an absolute \<open>s\<close> replaces the base.\<close>

definition joinpath :: "path \<Rightarrow> pystr \<Rightarrow> path" where
  "joinpath base s =
     (let p = path_of s in
      if is_absolute p then p else Path (root base) (names base @ names p))"

definition parent :: "path \<Rightarrow> path" where
  "parent p = Path (root p) (butlast (names p))"

fun join_names :: "pystr list \<Rightarrow> pystr" where
  "join_names [] = []"
| "join_names [n] = n"
| "join_names (n # m # ns) = n @ [47] @ join_names (m # ns)"

text \<open>\<^verbatim>\<open>str(p)\<close>.\<close>

definition str_path :: "path \<Rightarrow> pystr" where
  "str_path p = (if root p = [] \<and> names p = [] then py ''.'' else root p @ join_names (names p))"

text \<open>
  \<^verbatim>\<open>target.relative_to(base)\<close> succeeds when the parts of \<open>base\<close> are a prefix of the parts
  of \<open>target\<close>: the same root, and the names of \<open>base\<close> at the start of those of \<open>target\<close>.
  A path is relative to itself.
\<close>

definition is_relative_to :: "path \<Rightarrow> path \<Rightarrow> bool" where
  "is_relative_to target base \<longleftrightarrow>
     root target = root base \<and> take (length (names base)) (names target) = names base"

text \<open>
  \<^verbatim>\<open>Path.resolve()\<close> depends on the file system. \<^verbatim>\<open>validate_path\<close> takes it, and
  \<^verbatim>\<open>Path.exists\<close>, as parameters; both may raise, and nothing in \<^verbatim>\<open>validate_path\<close>
  catches what they raise. \<open>resolve_lexical cwd\<close> is \<^verbatim>\<open>resolve\<close> on a file system
  without symbolic links and with current directory \<open>cwd\<close> (absolute, without \<^verbatim>\<open>..\<close>): a
  relative path is taken from \<open>cwd\<close>, each \<^verbatim>\<open>..\<close> removes the name before it (none at the
  root), the root becomes \<^verbatim>\<open>/\<close>, and a NUL character in a name raises \<^verbatim>\<open>ValueError\<close>.
\<close>

fun collapse_dotdot :: "pystr list \<Rightarrow> pystr list \<Rightarrow> pystr list" where
  "collapse_dotdot acc [] = rev acc"
| "collapse_dotdot acc (n # ns) =
     (if n = py ''..'' then collapse_dotdot (tl acc) ns else collapse_dotdot (n # acc) ns)"

definition resolve_lexical :: "path \<Rightarrow> path \<Rightarrow> py_exception + path" where
  "resolve_lexical cwd p =
     (if list_ex (\<lambda>n. 0 \<in> set n) (names p) then Inl (ValueError (py ''embedded null byte''))
      else Inr (Path (py ''/'')
             (collapse_dotdot [] (if is_absolute p then names p else names cwd @ names p))))"

definition validate_path ::
  "(path \<Rightarrow> py_exception + path) \<Rightarrow> (path \<Rightarrow> py_exception + bool) \<Rightarrow> pystr \<Rightarrow> pystr
     \<Rightarrow> bool \<Rightarrow> py_exception + path" where
  "validate_path resolve exists user_path base_dir must_exist =
     (case resolve (path_of base_dir) of
        Inl err \<Rightarrow> Inl err
      | Inr base \<Rightarrow>
          (case (if is_absolute (path_of user_path) then resolve (path_of user_path)
                 else resolve (joinpath base user_path)) of
             Inl err \<Rightarrow> Inl err
           | Inr target \<Rightarrow>
               if \<not> is_relative_to target base
                 then Inl (ValidationError (OutsideBaseDirectory target base))
               else if must_exist then
                 (case exists target of
                    Inl err \<Rightarrow> Inl err
                  | Inr found \<Rightarrow>
                      if \<not> found then Inl (ValidationError (DoesNotExist target))
                      else Inr target)
               else Inr target))"



section \<open>subprocess_utils.py\<close>

subsection \<open>The operating system\<close>

text \<open>
  What a started process does is not part of the program. It is a parameter: \<open>os_run\<close>
  receives the vector handed to process creation, the working directory, the environment
  and the timeout, and answers with what happened and the new state of the world (a process
  may change any file). The file system queries of \<^verbatim>\<open>pathlib\<close> are parameters too:
  \<^verbatim>\<open>exists\<close>, \<^verbatim>\<open>is_dir\<close> and \<^verbatim>\<open>glob\<close> answer or raise (an \<^verbatim>\<open>OSError\<close> other than the
  few they catch), and leave the world as it is; \<^verbatim>\<open>mkdir\<close> changes it, and may raise.
  \<open>'w\<close> is the state of the world.
\<close>

datatype proc_outcome =
    Exited int pystr pystr
  | TimedOut
  | RunRaised pystr

record 'w os =
  os_run :: "pystr list \<Rightarrow> path option \<Rightarrow> (pystr \<times> pystr) list option \<Rightarrow> int \<Rightarrow> 'w
               \<Rightarrow> proc_outcome \<times> 'w"
  os_exists :: "path \<Rightarrow> 'w \<Rightarrow> py_exception + bool"
  os_is_dir :: "path \<Rightarrow> 'w \<Rightarrow> py_exception + bool"
  os_glob :: "path \<Rightarrow> pystr \<Rightarrow> 'w \<Rightarrow> py_exception + path list"
  os_mkdir_parents :: "path \<Rightarrow> 'w \<Rightarrow> pystr option \<times> 'w"

text \<open>
  What a call does besides returning: the processes it asks for, in order, each with the
  vector that is executed and its outcome; the log records; the directories it creates.
\<close>

datatype log_level = INFO | WARNING | ERROR

datatype event =
    Spawn "pystr list" "path option" "(pystr \<times> pystr) list option" int proc_outcome
  | Logged log_level pystr
  | MakeDirs path

fun spawned :: "event list \<Rightarrow> (pystr list \<times> proc_outcome) list" where
  "spawned [] = []"
| "spawned (Spawn argv cwd env t out # es) = (argv, out) # spawned es"
| "spawned (e # es) = spawned es"

subsection \<open>subprocess.run\<close>

record completed_process =
  returncode :: int
  stdout :: "pystr option"
  stderr :: "pystr option"

datatype run_error =
    CalledProcessError int "pystr option"
  | TimeoutExpired
  | OtherException pystr

text \<open>
  On POSIX, \<^verbatim>\<open>Popen\<close> executes a list of arguments as it is when \<^verbatim>\<open>shell=False\<close>, and
  executes \<^verbatim>\<open>/bin/sh -c\<close> followed by the list when \<^verbatim>\<open>shell=True\<close>.
\<close>

definition popen_argv :: "bool \<Rightarrow> pystr list \<Rightarrow> pystr list" where
  "popen_argv shell args = (if shell then [py ''/bin/sh'', py ''-c''] @ args else args)"

definition subprocess_run ::
  "'w os \<Rightarrow> pystr list \<Rightarrow> path option \<Rightarrow> bool \<Rightarrow> int \<Rightarrow> bool \<Rightarrow> bool
     \<Rightarrow> (pystr \<times> pystr) list option \<Rightarrow> 'w
     \<Rightarrow> (run_error + completed_process) \<times> 'w \<times> event list" where
  "subprocess_run os args cwd capture_output timeout check shell env w =
     (let argv = popen_argv shell args;
          (out, w') = os_run os argv cwd env timeout w;
          ev = [Spawn argv cwd env timeout out]
      in case out of
           Exited rc so se \<Rightarrow>
             (let so' = (if capture_output then Some so else None);
                  se' = (if capture_output then Some se else None)
              in if check \<and> rc \<noteq> 0 then (Inl (CalledProcessError rc se'), w', ev)
                 else (Inr \<lparr>returncode = rc, stdout = so', stderr = se'\<rparr>, w', ev))
         | TimedOut \<Rightarrow> (Inl TimeoutExpired, w', ev)
         | RunRaised msg \<Rightarrow> (Inl (OtherException msg), w', ev))"

subsection \<open>shlex.join\<close>

definition shlex_safe_char :: "pychar \<Rightarrow> bool" where
  "shlex_safe_char c \<longleftrightarrow>
     (97 \<le> c \<and> c \<le> 122) \<or> (65 \<le> c \<and> c \<le> 90) \<or> (48 \<le> c \<and> c \<le> 57) \<or> c = 95 \<or>
     c = 64 \<or> c = 37 \<or> c = 43 \<or> c = 61 \<or> c = 58 \<or> c = 44 \<or> c = 46 \<or> c = 47 \<or> c = 45"

definition shlex_quote :: "pystr \<Rightarrow> pystr" where
  "shlex_quote s =
     (if s = [] then [39, 39]
      else if list_all shlex_safe_char s then s
      else [39] @ concat (map (\<lambda>c. if c = 39 then [39, 34, 39, 34, 39] else [c]) s) @ [39])"

fun join_with :: "pystr \<Rightarrow> pystr list \<Rightarrow> pystr" where
  "join_with sep [] = []"
| "join_with sep [x] = x"
| "join_with sep (x # y # xs) = x @ sep @ join_with sep (y # xs)"

definition shlex_join :: "pystr list \<Rightarrow> pystr" where
  "shlex_join command = join_with [32] (map shlex_quote command)"

subsection \<open>execute_command_safe\<close>

definition str_opt :: "pystr option \<Rightarrow> pystr" where
  "str_opt s = (case s of None \<Rightarrow> py ''None'' | Some t \<Rightarrow> t)"

text \<open>
  The command is a list of strings by its type, so of the input checks (a non-empty list,
  of strings only) the test for the empty list remains.
\<close>

definition execute_command_safe ::
  "'w os \<Rightarrow> pystr list \<Rightarrow> path option \<Rightarrow> int \<Rightarrow> bool \<Rightarrow> (pystr \<times> pystr) list option \<Rightarrow> bool
     \<Rightarrow> 'w \<Rightarrow> (py_exception + completed_process) \<times> 'w \<times> event list" where
  "execute_command_safe os command cwd timeout check env capture_output w =
     (if command = []
        then (Inl (ValueError ([10060] @ py '' Command must be a non-empty list'')), w, [])
      else
        let safe_cmd = shlex_join command;
            log0 = Logged INFO ([128295] @ py '' Executing: '' @ safe_cmd @
                     (case cwd of None \<Rightarrow> []
                      | Some d \<Rightarrow> py '' (cwd: '' @ str_path d @ py '')''));
            (r, w', ev) = subprocess_run os command cwd capture_output timeout check False env w
        in case r of
             Inr result \<Rightarrow>
               (Inr result, w',
                log0 # ev @ [Logged INFO ([9989] @ py '' Command completed (exit code: '' @
                               str_int (returncode result) @ py '')'')])
           | Inl (CalledProcessError rc se) \<Rightarrow>
               (Inl (CommandExecutionError
                       (py ''Command failed with exit code '' @ str_int rc @ [10] @
                        py ''Command: '' @ safe_cmd @ [10] @ py ''Error: '' @ str_opt se)),
                w',
                log0 # ev @ [Logged ERROR ([10060] @ py '' Command failed (exit code '' @
                               str_int rc @ py ''): '' @ str_opt se)])
           | Inl TimeoutExpired \<Rightarrow>
               (Inl (CommandExecutionError
                       (py ''Command timed out after '' @ str_int timeout @ py ''s'' @ [10] @
                        py ''Command: '' @ safe_cmd)),
                w',
                log0 # ev @ [Logged ERROR ([10060] @ py '' Command timed out after '' @
                               str_int timeout @ py ''s'')])
           | Inl (OtherException msg) \<Rightarrow>
               (Inl (CommandExecutionError (py ''Unexpected error: '' @ msg)),
                w',
                log0 # ev @ [Logged ERROR ([10060] @ py '' Unexpected error: '' @ msg)]))"


subsection \<open>git_clone_safe\<close>

text \<open>
  \<^verbatim>\<open>if branch:\<close> is false for \<^verbatim>\<open>None\<close> and for the empty string; a validated branch
  is never empty.
\<close>

definition git_clone_safe ::
  "'w os \<Rightarrow> pystr \<Rightarrow> path \<Rightarrow> pystr option \<Rightarrow> int \<Rightarrow> int \<Rightarrow> 'w
     \<Rightarrow> (py_exception + unit) \<times> 'w \<times> event list" where
  "git_clone_safe os url target_dir branch depth timeout w =
     (case validate_url url (Some [py ''https'', py ''git'']) of
        Inl err \<Rightarrow> (Inl err, w, [])
      | Inr validated_url \<Rightarrow>
          (case (case branch of
                   None \<Rightarrow> Inr None
                 | Some b \<Rightarrow>
                     if b = [] then Inr None
                     else (case validate_branch_name b of
                             Inl err \<Rightarrow> Inl err
                           | Inr b' \<Rightarrow> Inr (Some b'))) of
             Inl err \<Rightarrow> (Inl err, w, [])
           | Inr branch' \<Rightarrow>
               (case os_exists os target_dir w of
                  Inl err \<Rightarrow> (Inl err, w, [])
                | Inr True \<Rightarrow>
                    (Inl (ValueError ([10060] @ py '' Target directory already exists: '' @
                            str_path target_dir)), w, [])
                | Inr False \<Rightarrow>
                 (case os_mkdir_parents os (parent target_dir) w of
                    (Some err, w1) \<Rightarrow> (Inl (OSError err), w1, [MakeDirs (parent target_dir)])
                  | (None, w1) \<Rightarrow>
                      let command =
                            [py ''git'', py ''clone'']
                            @ (case branch' of None \<Rightarrow> [] | Some b \<Rightarrow> [py ''--branch'', b])
                            @ (if depth > 0 then [py ''--depth'', str_int depth] else [])
                            @ [validated_url, str_path target_dir];
                          ev0 = [MakeDirs (parent target_dir),
                                 Logged INFO ([128229] @ py '' Cloning repository: '' @
                                   validated_url)];
                          (r, w2, ev) =
                            execute_command_safe os command None timeout True None True w1
                      in case r of
                           Inl err \<Rightarrow> (Inl err, w2, ev0 @ ev)
                         | Inr res \<Rightarrow>
                             (Inr (), w2,
                              ev0 @ ev @ [Logged INFO ([9989] @ py '' Successfully cloned to '' @
                                            str_path target_dir)])))))"

subsection \<open>compile_latex_safe\<close>

definition pdflatex_command :: "pystr \<Rightarrow> pystr list" where
  "pdflatex_command tex_file =
     [py ''pdflatex'', py ''-interaction=nonstopmode'', py ''-no-shell-escape'',
      py ''-halt-on-error'', tex_file]"

definition bibtex_command :: "pystr \<Rightarrow> pystr list" where
  "bibtex_command base_name = [py ''bibtex'', base_name]"

definition pdflatex_failed_message :: "nat \<Rightarrow> pystr" where
  "pdflatex_failed_message i =
     py ''pdflatex failed on run '' @ str_nat (i + 1) @ [10] @
     py ''See output above for details''"

text \<open>
  The step after pass \<open>i\<close> succeeded: after the first pass only, the project directory
  is searched for \<^verbatim>\<open>*.bib\<close> files (outside the \<^verbatim>\<open>try\<close>: what the search raises ends the
  compilation), and if there is one \<^verbatim>\<open>bibtex\<close> is run; whatever that call raises is caught.
\<close>

definition bibtex_step ::
  "'w os \<Rightarrow> pystr \<Rightarrow> path \<Rightarrow> nat \<Rightarrow> 'w \<Rightarrow> (py_exception + unit) \<times> 'w \<times> event list" where
  "bibtex_step os base_name project_dir i w =
     (if i = 0 then
        (case os_glob os project_dir (py ''*.bib'') w of
           Inl err \<Rightarrow> (Inl err, w, [])
         | Inr bib_files \<Rightarrow>
             if bib_files \<noteq> [] then
               (case execute_command_safe os (bibtex_command base_name) (Some project_dir) 30
                       False None True w of
                  (Inl err, w', ev) \<Rightarrow>
                    (Inr (), w', Logged INFO (py ''  Running bibtex...'') # ev
                       @ [Logged WARNING (py ''  bibtex failed (continuing anyway)'')])
                | (Inr res, w', ev) \<Rightarrow>
                    (Inr (), w', Logged INFO (py ''  Running bibtex...'') # ev))
             else (Inr (), w, []))
      else (Inr (), w, []))"

text \<open>
  The loop \<^verbatim>\<open>for i in range(runs)\<close>, from pass \<open>i\<close> with \<open>k\<close> passes left.
\<close>

fun latex_passes ::
  "'w os \<Rightarrow> pystr \<Rightarrow> pystr \<Rightarrow> path \<Rightarrow> int \<Rightarrow> int \<Rightarrow> nat \<Rightarrow> nat \<Rightarrow> 'w
     \<Rightarrow> (py_exception + unit) \<times> 'w \<times> event list" where
  "latex_passes os tex_file base_name project_dir timeout runs i 0 w = (Inr (), w, [])"
| "latex_passes os tex_file base_name project_dir timeout runs i (Suc k) w =
     (let log0 = Logged INFO (py ''  Run '' @ str_nat (i + 1) @ py ''/'' @ str_int runs @
                   py ''...'')
      in case execute_command_safe os (pdflatex_command tex_file) (Some project_dir) timeout
                False None True w of
           (Inl err, w1, ev1) \<Rightarrow> (Inl err, w1, log0 # ev1)
         | (Inr result, w1, ev1) \<Rightarrow>
             if returncode result \<noteq> 0 then
               (Inl (CommandExecutionError (pdflatex_failed_message i)), w1,
                log0 # ev1 @
                [Logged ERROR ([10060] @ py '' pdflatex failed on run '' @ str_nat (i + 1)),
                 Logged ERROR (py ''Output:'' @ [10] @ str_opt (stdout result))])
             else
               (case bibtex_step os base_name project_dir i w1 of
                  (Inl err, w2, ev2) \<Rightarrow> (Inl err, w2, log0 # ev1 @ ev2)
                | (Inr u, w2, ev2) \<Rightarrow>
                    (case latex_passes os tex_file base_name project_dir timeout runs
                            (Suc i) k w2 of
                       (r, w3, ev3) \<Rightarrow> (r, w3, log0 # ev1 @ ev2 @ ev3))))"

definition pdf_not_created_message :: "path \<Rightarrow> pystr" where
  "pdf_not_created_message pdf_path =
     [10060] @ py '' PDF file not created: '' @ str_path pdf_path @ [10] @
     py ''Check LaTeX output for errors''"

definition compile_latex_safe ::
  "'w os \<Rightarrow> pystr \<Rightarrow> path \<Rightarrow> int \<Rightarrow> int \<Rightarrow> 'w
     \<Rightarrow> (py_exception + path) \<times> 'w \<times> event list" where
  "compile_latex_safe os tex_file project_dir timeout runs w =
     (if \<not> endswith tex_file (py ''.tex'')
        then (Inl (ValueError ([10060] @ py '' File must end with .tex: '' @ tex_file)), w, [])
      else if 47 \<in> set tex_file \<or> 92 \<in> set tex_file
        then (Inl (ValueError ([10060] @ py '' tex_file must be filename only, not path: '' @
                     tex_file)), w, [])
      else
        (case os_is_dir os project_dir w of
           Inl err \<Rightarrow> (Inl err, w, [])
         | Inr False \<Rightarrow>
             (Inl (ValueError ([10060] @ py '' Project directory not found: '' @
                     str_path project_dir)), w, [])
         | Inr True \<Rightarrow>
        (case os_exists os (joinpath project_dir tex_file) w of
           Inl err \<Rightarrow> (Inl err, w, [])
         | Inr False \<Rightarrow>
             (Inl (ValueError ([10060] @ py '' TeX file not found: '' @
                     str_path (joinpath project_dir tex_file))), w, [])
         | Inr True \<Rightarrow>
        let base_name = take (length tex_file - 4) tex_file;
            log0 = Logged INFO ([128196] @ py '' Compiling LaTeX: '' @ tex_file @ py '' ('' @
                     str_int runs @ py '' runs)'');
            pdf_path = joinpath project_dir (base_name @ py ''.pdf'')
        in case latex_passes os tex_file base_name project_dir timeout runs 0 (nat runs) w of
             (Inl err, w1, ev) \<Rightarrow> (Inl err, w1, log0 # ev)
           | (Inr u, w1, ev) \<Rightarrow>
               (case os_exists os pdf_path w1 of
                  Inl err \<Rightarrow> (Inl err, w1, log0 # ev)
                | Inr False \<Rightarrow>
                    (Inl (CommandExecutionError (pdf_not_created_message pdf_path)), w1,
                     log0 # ev)
                | Inr True \<Rightarrow>
                    (Inr pdf_path, w1,
                     log0 # ev @ [Logged INFO ([9989] @ py '' LaTeX compilation successful: '' @
                                    str_path pdf_path)])))))"


fun is_spawn :: "event \<Rightarrow> bool" where
  "is_spawn (Spawn argv cwd env t out) = True"
| "is_spawn e = False"

subsection \<open>An operating system for the examples\<close>

text \<open>
  A small world to run the functions in: the state is the list of paths that exist, a
  process is a function of its argument vector and that list, \<^verbatim>\<open>glob\<close> understands
  patterns of the form \<^verbatim>\<open>*suffix\<close>, and no query raises.
\<close>

definition example_os ::
  "(pystr list \<Rightarrow> path list \<Rightarrow> proc_outcome \<times> path list) \<Rightarrow> (path list) os" where
  "example_os behave =
     \<lparr>os_run = (\<lambda>argv cwd env t w. behave argv w),
      os_exists = (\<lambda>p w. Inr (p \<in> set w)),
      os_is_dir = (\<lambda>p w. Inr (p \<in> set w)),
      os_glob = (\<lambda>d pat w. Inr
         (filter (\<lambda>p. names p \<noteq> [] \<and> parent p = d \<and> endswith (last (names p)) (tl pat)) w)),
      os_mkdir_parents = (\<lambda>p w. (None, p # w))\<rparr>"


section \<open>Properties of the regular expressions\<close>

lemma matches_Never [simp]: "\<not> matches Never s"
  by (induction s) auto

lemma matches_Alt [simp]: "matches (Alt a b) s \<longleftrightarrow> matches a s \<or> matches b s"
  by (induction s arbitrary: a b) auto

lemma matches_Seq_Never [simp]: "\<not> matches (Seq Never r) s"
  by (induction s) auto

lemma matches_Seq_Eps [simp]: "matches (Seq Eps r) s \<longleftrightarrow> matches r s"
  by (cases s) auto

lemma matches_Star_Cls: "matches (Star (Cls items)) s \<longleftrightarrow> (\<forall>c\<in>set s. in_class items c)"
  by (induction s) auto

lemma matches_Plus_Cls:
  "matches (Plus (Cls items)) s \<longleftrightarrow> s \<noteq> [] \<and> (\<forall>c\<in>set s. in_class items c)"
  by (cases s) (auto simp: Plus_def matches_Star_Cls)

lemma in_set_butlast_or_last:
  "c \<in> set s \<Longrightarrow> c \<in> set (butlast s) \<or> c = last s"
  by (induction s) (auto split: if_splits)

lemma re_match_anchored_Plus_Cls:
  assumes "re_match_anchored (Plus (Cls items)) s" and "c \<in> set s"
  shows "in_class items c \<or> c = 10"
proof (cases "matches (Plus (Cls items)) s")
  case True
  with assms(2) show ?thesis by (simp add: matches_Plus_Cls)
next
  case False
  with assms(1) have l: "last s = 10" and m: "matches (Plus (Cls items)) (butlast s)"
    by (auto simp: re_match_anchored_def)
  from assms(2) have "c \<in> set (butlast s) \<or> c = last s"
    by (rule in_set_butlast_or_last)
  with l m show ?thesis by (auto simp: matches_Plus_Cls)
qed

lemma parse_allowed_chars:
  "parse_set (allowed_chars d u sl) =
     (if u \<and> d \<and> sl then Inl (ReError (py ''bad character range _-/''))
      else Inr ([(97, 122), (65, 90), (48, 57)]
                @ (if u then [(95, 95)] else []) @ (if d then [(45, 45)] else [])
                @ (if sl then [(47, 47)] else [])))"
  by (cases d; cases u; cases sl) (simp_all add: allowed_chars_def py_def)

lemma dangerous_not_alnum:
  "c \<in> set dangerous_chars \<Longrightarrow>
     \<not> (97 \<le> c \<and> c \<le> 122) \<and> \<not> (65 \<le> c \<and> c \<le> 90) \<and> \<not> (48 \<le> c \<and> c \<le> 57)
     \<and> c \<noteq> 95 \<and> c \<noteq> 45 \<and> c \<noteq> 47 \<and> c \<noteq> 10 \<and> \<not> isspace c"
  unfolding dangerous_chars_def isspace_def by (elim disjE | simp)+

section \<open>The character set test of validate_identifier\<close>

lemma charset_accepts_no_dangerous:
  assumes "re_match_charset (allowed_chars d u sl) v = Inr True" and "c \<in> set v"
  shows "c \<notin> set dangerous_chars"
proof
  assume dc: "c \<in> set dangerous_chars"
  from assms(1) obtain items where p: "parse_set (allowed_chars d u sl) = Inr items"
    and m: "re_match_anchored (Plus (Cls items)) v"
    by (auto simp: re_match_charset_def split: sum.splits)
  from m assms(2) have "in_class items c \<or> c = 10" by (rule re_match_anchored_Plus_Cls)
  moreover from p have "in_class items c \<Longrightarrow>
      (97 \<le> c \<and> c \<le> 122) \<or> (65 \<le> c \<and> c \<le> 90) \<or> (48 \<le> c \<and> c \<le> 57) \<or> c = 95 \<or> c = 45 \<or> c = 47"
    by (auto simp: parse_allowed_chars in_class_def split: if_splits)
  ultimately show False using dangerous_not_alnum [OF dc] by blast
qed

lemma re_match_charset_allowed_not_validation:
  "re_match_charset (allowed_chars d u sl) w \<noteq> Inl (ValidationError r)"
  by (simp add: re_match_charset_def parse_allowed_chars)

text \<open>
  Claim C9. In \<^verbatim>\<open>validate_identifier\<close> the shell metacharacter veto is redundant: for
  every combination of \<^verbatim>\<open>allow_dash\<close>, \<^verbatim>\<open>allow_underscore\<close> and \<^verbatim>\<open>allow_slash\<close>, a
  string that the character set test accepts contains no character of the blocked set, and
  \<^verbatim>\<open>validate_identifier\<close> never fails with the shell metacharacter error.
\<close>

theorem metacharacter_veto_unreachable:
  "(re_match_charset (allowed_chars allow_dash allow_underscore allow_slash) v = Inr True
      \<longrightarrow> (\<forall>c\<in>set v. c \<notin> set dangerous_chars))
   \<and> validate_identifier v max_length allow_dash allow_underscore allow_slash
       \<noteq> Inl (ValidationError (ShellMetacharacters found))"
proof
  show "re_match_charset (allowed_chars allow_dash allow_underscore allow_slash) v = Inr True
      \<longrightarrow> (\<forall>c\<in>set v. c \<notin> set dangerous_chars)"
    using charset_accepts_no_dangerous by blast
next
  have "filter (\<lambda>c. c \<in> set dangerous_chars) w = []"
    if "re_match_charset (allowed_chars allow_dash allow_underscore allow_slash) w = Inr True" for w
    using charset_accepts_no_dangerous [OF that] by (simp add: filter_empty_conv)
  then show "validate_identifier v max_length allow_dash allow_underscore allow_slash
       \<noteq> Inl (ValidationError (ShellMetacharacters found))"
    using re_match_charset_allowed_not_validation
    by (auto simp: validate_identifier_def Let_def split: sum.splits)
qed

theorem metacharacter_veto_unreachable_witness:
  "re_match_charset (allowed_chars True True False) (py ''vq'') = Inr True
   \<and> filter (\<lambda>c. c \<in> set dangerous_chars) (py ''vq'') = []
   \<and> validate_identifier (py ''vq'') 50 True True False
       \<noteq> Inl (ValidationError (ShellMetacharacters []))"
proof -
  have h: "re_match_charset (allowed_chars True True False) (py ''vq'') = Inr True"
    by (simp add: re_match_charset_def parse_allowed_chars re_match_anchored_def Plus_def
        in_class_def py_def)
  show ?thesis
    using h metacharacter_veto_unreachable
      [where allow_dash = True and allow_underscore = True and allow_slash = False
         and v = "py ''vq''" and max_length = 50 and found = "[]"]
    by (simp add: filter_empty_conv)
qed


section \<open>Stripping whitespace\<close>

lemma mem_dropWhile: "x \<in> set xs \<Longrightarrow> \<not> P x \<Longrightarrow> x \<in> set (dropWhile P xs)"
  by (induction xs) auto

lemma mem_strip: "c \<in> set v \<Longrightarrow> \<not> isspace c \<Longrightarrow> c \<in> set (strip v)"
  by (simp add: strip_def lstrip_def rstrip_def mem_dropWhile)

lemma strip_Nil [simp]: "strip [] = []"
  by (simp add: strip_def lstrip_def rstrip_def)

lemma hd_rstrip:
  assumes "rev (dropWhile P (rev xs)) \<noteq> []"
  shows "hd (rev (dropWhile P (rev xs))) = hd xs"
proof -
  have "rev xs = takeWhile P (rev xs) @ dropWhile P (rev xs)" by simp
  then have "xs = rev (dropWhile P (rev xs)) @ rev (takeWhile P (rev xs))"
    by (metis rev_append rev_rev_ident)
  with assms show ?thesis by (metis hd_append2)
qed

lemma strip_strip [simp]: "strip (strip s) = strip s"
proof -
  let ?u = "dropWhile isspace s"
  let ?t = "rev (dropWhile isspace (rev ?u))"
  have hb: "dropWhile isspace (rev ?t) = rev ?t" by simp
  have hf: "dropWhile isspace ?t = ?t"
  proof (cases "?t = []")
    case True
    show ?thesis by (simp only: True dropWhile.simps)
  next
    case False
    then have h: "hd ?t = hd ?u" by (rule hd_rstrip)
    have "?u \<noteq> []"
    proof
      assume e: "?u = []"
      have "?t = []" by (simp only: e rev.simps dropWhile.simps)
      with False show False by contradiction
    qed
    then have "\<not> isspace (hd ?u)" by (rule hd_dropWhile)
    with h False show ?thesis by (simp add: dropWhile_eq_self_iff)
  qed
  show ?thesis
    unfolding strip_def lstrip_def rstrip_def
    by (simp only: hf rev_rev_ident dropWhile_idem)
qed


section \<open>Examples and rejections of the validators\<close>

lemmas eval_strip = strip_def lstrip_def rstrip_def isspace_def py_def

lemma validate_identifier_rejects_metacharacter:
  assumes "c \<in> set v" and "c \<in> set dangerous_chars"
    and "\<not> (allow_dash \<and> allow_underscore \<and> allow_slash)"
  shows "\<exists>r. validate_identifier v max_length allow_dash allow_underscore allow_slash
            = Inl (ValidationError r)"
proof -
  from assms(2) have "\<not> isspace c" using dangerous_not_alnum by blast
  with assms(1) have cs: "c \<in> set (strip v)" by (rule mem_strip)
  from assms(3) obtain items where
    p: "parse_set (allowed_chars allow_dash allow_underscore allow_slash) = Inr items"
    by (auto simp: parse_allowed_chars)
  have "re_match_charset (allowed_chars allow_dash allow_underscore allow_slash) (strip v)
          \<noteq> Inr True"
    using charset_accepts_no_dangerous cs assms(2) by blast
  with p have "re_match_charset (allowed_chars allow_dash allow_underscore allow_slash) (strip v)
          = Inr False"
    by (simp add: re_match_charset_def)
  with assms(1) cs show ?thesis
    by (auto simp: validate_identifier_def Let_def)
qed

text \<open>
  Claim C2 says that every string with a blocked metacharacter makes
  \<^verbatim>\<open>validate_identifier\<close> raise \<^verbatim>\<open>ValidationError\<close>, whatever the flags. The lemma
  above shows it for every flag combination but one. With \<^verbatim>\<open>allow_dash\<close>,
  \<^verbatim>\<open>allow_underscore\<close> and \<^verbatim>\<open>allow_slash\<close> all set, the class body is
  \<^verbatim>\<open>a-zA-Z0-9_-/\<close>, in which \<^verbatim>\<open>_-/\<close> is a descending range: compiling the pattern
  raises \<^verbatim>\<open>re.error\<close>, which is not a \<^verbatim>\<open>ValidationError\<close>. The code at that input:
\<close>

theorem validate_identifier_all_flags_re_error:
  "validate_identifier (py ''a;b'') 50 True True True
     = Inl (ReError (py ''bad character range _-/''))"
  by (simp add: validate_identifier_def re_match_charset_def parse_allowed_chars eval_strip)

text \<open>
  Claim C8 gives three examples of \<^verbatim>\<open>validate_url\<close> under the default scheme list.
  The first is accepted and the third is rejected as a local URL, as claimed. The second,
  \<^verbatim>\<open>file:///etc/passwd\<close>, is rejected, but by the pattern test (the pattern only admits
  the schemes http, https and git, and needs a host), so the failure is "Invalid URL format"
  and not "URL scheme not allowed" as the claim and the docstring say.
\<close>

theorem validate_url_examples:
  "validate_url (py ''https://github.com/a/b'') None = Inr (py ''https://github.com/a/b'')
   \<and> validate_url (py ''file:///etc/passwd'') None
       = Inl (ValidationError (UrlInvalidFormat (py ''file:///etc/passwd'')))
   \<and> validate_url (py ''https://127.0.0.1/x'') None = Inl (ValidationError UrlLocal)"
  by (simp add: validate_url_def url_pattern_def url_domain_class_def url_path_class_def
      re_match_anchored_def Str_def Lit_def Plus_def Opt_def in_class_def lower_def
      startswith_def eval_strip)


section \<open>What the validators return\<close>

lemma validate_identifier_strip:
  "strip v \<noteq> [] \<Longrightarrow>
     validate_identifier v m d u sl = validate_identifier (strip v) m d u sl"
  by (cases "v = []") (simp_all add: validate_identifier_def Let_def)

lemma validate_branch_name_strip:
  "strip b \<noteq> [] \<Longrightarrow> validate_branch_name b = validate_branch_name (strip b)"
  by (cases "b = []") (simp_all add: validate_branch_name_def Let_def)

lemma parse_branch_class:
  "parse_set (py ''a-zA-Z0-9/_-'')
     = Inr [(97, 122), (65, 90), (48, 57), (47, 47), (95, 95), (45, 45)]"
  by (simp add: py_def)

text \<open>
  Claim C10. \<^verbatim>\<open>validate_identifier\<close> and \<^verbatim>\<open>validate_branch_name\<close> do not return their
  input verbatim: a successful result is the input with leading and trailing whitespace
  stripped, an input whose stripped form is not empty is treated exactly as its stripped form
  (so it is accepted when the stripped form is valid), and the emptiness rejections occur
  exactly for the empty and the whitespace-only inputs.
\<close>

theorem validators_return_stripped:
  "(validate_identifier v m d u sl = Inr r \<longrightarrow> r = strip v)
   \<and> (strip v \<noteq> [] \<longrightarrow>
        validate_identifier v m d u sl = validate_identifier (strip v) m d u sl)
   \<and> (validate_identifier v m d u sl = Inl (ValidationError NotNonEmptyString) \<longleftrightarrow> v = [])
   \<and> (validate_identifier v m d u sl = Inl (ValidationError EmptyOrWhitespace)
        \<longleftrightarrow> v \<noteq> [] \<and> strip v = [])
   \<and> (validate_branch_name b = Inr r' \<longrightarrow> r' = strip b)
   \<and> (strip b \<noteq> [] \<longrightarrow> validate_branch_name b = validate_branch_name (strip b))
   \<and> (validate_branch_name b = Inl (ValidationError BranchEmpty)
        \<longleftrightarrow> b = [] \<or> strip b = [])"
proof (intro conjI)
  show "validate_identifier v m d u sl = Inr r \<longrightarrow> r = strip v"
    by (auto simp: validate_identifier_def Let_def split: if_splits sum.splits)
  show "strip v \<noteq> [] \<longrightarrow>
        validate_identifier v m d u sl = validate_identifier (strip v) m d u sl"
    using validate_identifier_strip by blast
  show "validate_identifier v m d u sl = Inl (ValidationError NotNonEmptyString) \<longleftrightarrow> v = []"
    using re_match_charset_allowed_not_validation
    by (auto simp: validate_identifier_def Let_def split: if_splits sum.splits)
  show "validate_identifier v m d u sl = Inl (ValidationError EmptyOrWhitespace)
        \<longleftrightarrow> v \<noteq> [] \<and> strip v = []"
    using re_match_charset_allowed_not_validation
    by (auto simp: validate_identifier_def Let_def split: if_splits sum.splits)
  show "validate_branch_name b = Inr r' \<longrightarrow> r' = strip b"
    by (auto simp: validate_branch_name_def Let_def split: if_splits sum.splits)
  show "strip b \<noteq> [] \<longrightarrow> validate_branch_name b = validate_branch_name (strip b)"
    using validate_branch_name_strip by blast
  show "validate_branch_name b = Inl (ValidationError BranchEmpty)
        \<longleftrightarrow> b = [] \<or> strip b = []"
    by (auto simp: validate_branch_name_def Let_def re_match_charset_def parse_branch_class
        split: if_splits)
qed

theorem validators_return_stripped_witness:
  "validate_identifier (py '' vq '') 50 True True False = Inr (py ''vq'')
   \<and> py ''vq'' = strip (py '' vq '') \<and> py ''vq'' \<noteq> py '' vq ''
   \<and> validate_identifier (py '' vq '') 50 True True False
       = validate_identifier (strip (py '' vq '')) 50 True True False
   \<and> validate_branch_name (py '' main '') = Inr (py ''main'')
   \<and> py ''main'' = strip (py '' main '')
   \<and> validate_branch_name (py '' main '') = validate_branch_name (strip (py '' main ''))"
proof -
  have i: "validate_identifier (py '' vq '') 50 True True False = Inr (py ''vq'')"
    by (simp add: validate_identifier_def re_match_charset_def parse_allowed_chars
        re_match_anchored_def Plus_def in_class_def dangerous_chars_def startswith_def eval_strip)
  have b: "validate_branch_name (py '' main '') = Inr (py ''main'')"
    by (simp add: validate_branch_name_def re_match_charset_def
        re_match_anchored_def Plus_def in_class_def startswith_def endswith_def eval_strip)
  have n: "py ''vq'' \<noteq> py '' vq ''" by (simp add: py_def)
  have s1: "strip (py '' vq '') \<noteq> []" and s2: "strip (py '' main '') \<noteq> []"
    by (simp_all add: eval_strip)
  note T = validators_return_stripped
      [where v = "py '' vq ''" and m = 50 and d = True and u = True and sl = False
         and r = "py ''vq''" and b = "py '' main ''" and r' = "py ''main''"]
  from T i have e1: "py ''vq'' = strip (py '' vq '')" by blast
  from T s1 have e2: "validate_identifier (py '' vq '') 50 True True False
       = validate_identifier (strip (py '' vq '')) 50 True True False" by blast
  from T b have e3: "py ''main'' = strip (py '' main '')" by blast
  from T s2 have e4: "validate_branch_name (py '' main '')
       = validate_branch_name (strip (py '' main ''))" by blast
  from i e1 n e2 b e3 e4 show ?thesis by blast
qed


section \<open>Path validation\<close>

lemmas eval_path = path_of_def joinpath_def is_absolute_def is_relative_to_def
  resolve_lexical_def py_def Let_def



lemma path_of_app_papers_vq:
  "path_of (py ''/app/papers/vq'') = Path [47] [py ''app'', py ''papers'', py ''vq'']"
  by (simp add: eval_path)

lemma path_of_srv_app: "path_of (py ''/srv/app'') = Path [47] [py ''srv'', py ''app'']"
  by (simp add: eval_path)

lemma path_of_srv_app_papers_vq:
  "path_of (py ''/srv/app/papers/vq'')
     = Path [47] [py ''srv'', py ''app'', py ''papers'', py ''vq'']"
  by (simp add: eval_path)





lemma validate_path_resolved:
  "resolve (path_of base_dir) = Inr base \<Longrightarrow>
   resolve (if is_absolute (path_of user_path) then path_of user_path
            else joinpath base user_path) = Inr target \<Longrightarrow>
   validate_path resolve exists user_path base_dir must_exist
     = (if \<not> is_relative_to target base
          then Inl (ValidationError (OutsideBaseDirectory target base))
        else if must_exist then
          (case exists target of
             Inl err \<Rightarrow> Inl err
           | Inr found \<Rightarrow> if found then Inr target
                          else Inl (ValidationError (DoesNotExist target)))
        else Inr target)"
  by (auto simp: validate_path_def split: sum.splits if_splits)



text \<open>
  Where \<^verbatim>\<open>/app\<close> is a symbolic link to \<^verbatim>\<open>/srv/app\<close>, the path that is returned for
  \<^verbatim>\<open>papers/vq\<close> is below \<^verbatim>\<open>/srv/app\<close>.
\<close>

lemma validate_path_symlinked_base:
  assumes "resolve (path_of (py ''/app'')) = Inr (path_of (py ''/srv/app''))"
    and "resolve (joinpath (path_of (py ''/srv/app'')) (py ''papers/vq''))
           = Inr (path_of (py ''/srv/app/papers/vq''))"
  shows "validate_path resolve exists (py ''papers/vq'') (py ''/app'') False
           = Inr (path_of (py ''/srv/app/papers/vq''))
         \<and> path_of (py ''/srv/app/papers/vq'') \<noteq> path_of (py ''/app/papers/vq'')"
proof -
  have a: "\<not> is_absolute (path_of (py ''papers/vq''))" by (simp add: eval_path)
  have r: "is_relative_to (path_of (py ''/srv/app/papers/vq'')) (path_of (py ''/srv/app''))"
    unfolding path_of_srv_app path_of_srv_app_papers_vq by (simp add: is_relative_to_def)
  have n: "path_of (py ''/srv/app/papers/vq'') \<noteq> path_of (py ''/app/papers/vq'')"
    unfolding path_of_app_papers_vq path_of_srv_app_papers_vq by (simp add: py_def)
  from validate_path_resolved [of resolve "py ''/app''" "path_of (py ''/srv/app'')"
      "py ''papers/vq''" "path_of (py ''/srv/app/papers/vq'')" exists False] assms a r n
  show ?thesis by simp
qed







section \<open>Processes started by execute_command_safe\<close>

lemma spawned_append [simp]: "spawned (xs @ ys) = spawned xs @ spawned ys"
  by (induction xs rule: spawned.induct) auto

lemma spawned_Logged [simp]: "spawned (Logged l m # es) = spawned es"
  by simp

lemma subprocess_run_events:
  "snd (snd (subprocess_run os args cwd capture_output timeout check shell env w))
     = [Spawn (popen_argv shell args) cwd env timeout
          (fst (os_run os (popen_argv shell args) cwd env timeout w))]"
  by (auto simp: subprocess_run_def Let_def split: prod.splits proc_outcome.splits)

lemma execute_command_safe_events:
  "command \<noteq> [] \<Longrightarrow>
     filter is_spawn (snd (snd (execute_command_safe os command cwd timeout check env
                                  capture_output w)))
       = [Spawn command cwd env timeout (fst (os_run os command cwd env timeout w))]"
  using subprocess_run_events [of os command cwd capture_output timeout check False env w]
  by (auto simp: execute_command_safe_def Let_def popen_argv_def
      split: prod.splits sum.splits run_error.splits)

lemma length_shlex_quote: "length s \<le> length (shlex_quote s)"
proof -
  have "length s \<le> length (concat (map (\<lambda>c. if c = 39 then [39, 34, 39, 34, 39] else [c]) s))"
    by (induction s) auto
  then show ?thesis by (simp add: shlex_quote_def)
qed

lemma shlex_join_three:
  "shlex_join [a, b, c] = shlex_quote a @ [32] @ shlex_quote b @ [32] @ shlex_quote c"
  by (simp add: shlex_join_def)

lemma not_shell_form: "command \<noteq> popen_argv True [shlex_join command]"
proof
  assume e: "command = popen_argv True [shlex_join command]"
  let ?j = "shlex_join command"
  from e have c: "command = [py ''/bin/sh'', py ''-c'', ?j]" by (simp add: popen_argv_def)
  have "?j = shlex_join [py ''/bin/sh'', py ''-c'', ?j]" by (subst c) simp
  then have "length ?j = length (shlex_join [py ''/bin/sh'', py ''-c'', ?j])" by simp
  moreover have "length ?j < length (shlex_join [py ''/bin/sh'', py ''-c'', ?j])"
    using length_shlex_quote [of ?j] by (simp add: shlex_join_three)
  ultimately show False by simp
qed


text \<open>
  Claim C1. For every command and all options, the only process that
  \<open>execute_command_safe\<close> asks for is created from the given argument vector, unchanged
  and in order, with \<^verbatim>\<open>shell=False\<close>, with the given working directory, environment and
  timeout; for the empty command no process is asked for. The string made by
  \<open>shlex_join\<close> for the log is not executed: the vector that is run is never the shell
  invocation \<^verbatim>\<open>/bin/sh -c\<close> of that string.
\<close>

theorem execute_command_safe_runs_argv_directly:
  "filter is_spawn
     (snd (snd (execute_command_safe os command cwd timeout check env capture_output w)))
     = (if command = [] then []
        else [Spawn (popen_argv False command) cwd env timeout
                (fst (os_run os command cwd env timeout w))])
   \<and> popen_argv False command = command
   \<and> popen_argv False command \<noteq> popen_argv True [shlex_join command]"
proof (intro conjI)
  show "filter is_spawn
     (snd (snd (execute_command_safe os command cwd timeout check env capture_output w)))
     = (if command = [] then []
        else [Spawn (popen_argv False command) cwd env timeout
                (fst (os_run os command cwd env timeout w))])"
  proof (cases "command = []")
    case True
    then show ?thesis by (simp add: execute_command_safe_def)
  next
    case False
    then show ?thesis
      using execute_command_safe_events [of command os cwd timeout check env capture_output w]
      by (simp add: popen_argv_def)
  qed
  show "popen_argv False command = command" by (simp add: popen_argv_def)
  show "popen_argv False command \<noteq> popen_argv True [shlex_join command]"
    using not_shell_form [of command] by (simp add: popen_argv_def)
qed

theorem execute_command_safe_runs_argv_directly_witness:
  "filter is_spawn
     (snd (snd (execute_command_safe (example_os (\<lambda>argv w. (Exited 0 (last argv) [], w)))
                  [py ''echo'', py ''a; rm -rf /''] None 300 True None True [])))
     = [Spawn [py ''echo'', py ''a; rm -rf /''] None None 300
          (Exited 0 (py ''a; rm -rf /'') [])]"
  using execute_command_safe_runs_argv_directly
          [of "example_os (\<lambda>argv w. (Exited 0 (last argv) [], w))"
              "[py ''echo'', py ''a; rm -rf /'']" None 300 True None True "[]"]
  by (simp add: example_os_def popen_argv_def)

text \<open>
  Claim C6. For every url, branch, depth and timeout: if the target directory exists,
  \<open>git_clone_safe\<close> fails, and it does nothing else: no process is started, no directory
  is created, nothing is logged, and the world is as it was.
\<close>

theorem git_clone_safe_existing_target:
  "os_exists os target_dir w = Inr True \<Longrightarrow>
     (\<exists>err. fst (git_clone_safe os url target_dir branch depth timeout w) = Inl err) \<and>
     snd (git_clone_safe os url target_dir branch depth timeout w) = (w, [])"
  by (auto simp: git_clone_safe_def split: sum.splits option.splits bool.splits)

theorem git_clone_safe_existing_target_witness:
  "os_exists (example_os (\<lambda>argv w. (Exited 0 [] [], w))) (path_of (py ''/work/repo''))
     [path_of (py ''/work/repo'')] = Inr True \<and>
   (\<exists>err. fst (git_clone_safe (example_os (\<lambda>argv w. (Exited 0 [] [], w)))
                (py ''https://github.com/a/b'') (path_of (py ''/work/repo'')) None 1 300
                [path_of (py ''/work/repo'')]) = Inl err) \<and>
   snd (git_clone_safe (example_os (\<lambda>argv w. (Exited 0 [] [], w)))
          (py ''https://github.com/a/b'') (path_of (py ''/work/repo'')) None 1 300
          [path_of (py ''/work/repo'')])
     = ([path_of (py ''/work/repo'')], [])"
proof -
  have e: "os_exists (example_os (\<lambda>argv w. (Exited 0 [] [], w))) (path_of (py ''/work/repo''))
             [path_of (py ''/work/repo'')] = Inr True"
    by (simp add: example_os_def)
  from git_clone_safe_existing_target [OF e] e show ?thesis by blast
qed


section \<open>The passes of compile_latex_safe\<close>

lemma pdflatex_not_bibtex: "pdflatex_command tex_file \<noteq> bibtex_command base_name"
  by (simp add: pdflatex_command_def bibtex_command_def)


text \<open>A call without the exit code check, with the output captured.\<close>

lemma execute_command_safe_nocheck:
  assumes "command \<noteq> []" and "os_run os command cwd env t w = (out, w1)"
  shows "\<exists>ev. spawned ev = [(command, out)] \<and>
     execute_command_safe os command cwd t False env True w =
       ((case out of
           Exited rc so se \<Rightarrow> Inr \<lparr>returncode = rc, stdout = Some so, stderr = Some se\<rparr>
         | TimedOut \<Rightarrow>
             Inl (CommandExecutionError
                    (py ''Command timed out after '' @ str_int t @ py ''s'' @ [10] @
                     py ''Command: '' @ shlex_join command))
         | RunRaised msg \<Rightarrow> Inl (CommandExecutionError (py ''Unexpected error: '' @ msg))),
        w1, ev)"
  using assms
  by (cases out) (simp_all add: execute_command_safe_def subprocess_run_def popen_argv_def Let_def)

lemma bibtex_step_later: "0 < i \<Longrightarrow> bibtex_step os base_name project_dir i w = (Inr (), w, [])"
  by (simp add: bibtex_step_def)

lemma bibtex_step_glob_raises:
  "os_glob os project_dir (py ''*.bib'') w = Inl err \<Longrightarrow>
     bibtex_step os base_name project_dir 0 w = (Inl err, w, [])"
  by (simp add: bibtex_step_def)

lemma bibtex_step_no_bib:
  "os_glob os project_dir (py ''*.bib'') w = Inr [] \<Longrightarrow>
     bibtex_step os base_name project_dir 0 w = (Inr (), w, [])"
  by (simp add: bibtex_step_def)

lemma bibtex_step_runs:
  assumes "os_glob os project_dir (py ''*.bib'') w = Inr bs" and "bs \<noteq> []"
    and "os_run os (bibtex_command base_name) (Some project_dir) None 30 w = (out, w1)"
  shows "\<exists>ev. spawned ev = [(bibtex_command base_name, out)] \<and>
           bibtex_step os base_name project_dir 0 w = (Inr (), w1, ev)"
proof -
  have n: "bibtex_command base_name \<noteq> []" by (simp add: bibtex_command_def)
  from execute_command_safe_nocheck [OF n assms(3)] obtain ev r where
    s: "spawned ev = [(bibtex_command base_name, out)]"
    and e: "execute_command_safe os (bibtex_command base_name) (Some project_dir) 30 False None
              True w = (r, w1, ev)"
    by blast
  show ?thesis using assms(1,2) e s
    by (cases r) (auto simp: bibtex_step_def)
qed

text \<open>Whatever the step does, it asks for at most the one \<^verbatim>\<open>bibtex\<close> process.\<close>

lemma bibtex_step_spawned:
  assumes "bibtex_step os base_name project_dir i w = (rb, w2, ev2)"
  shows "spawned ev2 = [] \<or>
         (i = 0 \<and> rb = Inr () \<and>
          (\<exists>bs. os_glob os project_dir (py ''*.bib'') w = Inr bs \<and> bs \<noteq> []) \<and>
          spawned ev2 = [(bibtex_command base_name,
                          fst (os_run os (bibtex_command base_name) (Some project_dir) None 30 w))] \<and>
          w2 = snd (os_run os (bibtex_command base_name) (Some project_dir) None 30 w))"
proof (cases "0 < i")
  case True
  with assms show ?thesis by (simp add: bibtex_step_later)
next
  case False
  then have i: "i = 0" by simp
  show ?thesis
  proof (cases "os_glob os project_dir (py ''*.bib'') w")
    case (Inl err)
    with assms i show ?thesis by (simp add: bibtex_step_glob_raises)
  next
    case (Inr bs)
    show ?thesis
    proof (cases "bs = []")
      case True
      with Inr assms i show ?thesis by (simp add: bibtex_step_no_bib)
    next
      case False
      obtain out w1 where
        r: "os_run os (bibtex_command base_name) (Some project_dir) None 30 w = (out, w1)"
        by (cases "os_run os (bibtex_command base_name) (Some project_dir) None 30 w")
      from bibtex_step_runs [OF Inr False r] assms i Inr False r show ?thesis by auto
    qed
  qed
qed

text \<open>One pass, by what \<^verbatim>\<open>pdflatex\<close> does.\<close>

lemma latex_passes_fail_step:
  assumes "os_run os (pdflatex_command tex_file) (Some project_dir) None timeout w
             = (Exited rc so se, w1)"
    and "rc \<noteq> 0"
  shows "\<exists>ev. spawned ev = [(pdflatex_command tex_file, Exited rc so se)] \<and>
           Logged ERROR (py ''Output:'' @ [10] @ so) \<in> set ev \<and>
           latex_passes os tex_file base_name project_dir timeout runs i (Suc k) w
             = (Inl (CommandExecutionError (pdflatex_failed_message i)), w1, ev)"
proof -
  have n: "pdflatex_command tex_file \<noteq> []" by (simp add: pdflatex_command_def)
  from execute_command_safe_nocheck [OF n assms(1)] obtain ev where
    s: "spawned ev = [(pdflatex_command tex_file, Exited rc so se)]"
    and e: "execute_command_safe os (pdflatex_command tex_file) (Some project_dir) timeout False
              None True w
            = (Inr \<lparr>returncode = rc, stdout = Some so, stderr = Some se\<rparr>, w1, ev)"
    by auto
  show ?thesis using assms(2) e s by (simp add: Let_def str_opt_def)
qed

lemma latex_passes_abort_step:
  assumes "os_run os (pdflatex_command tex_file) (Some project_dir) None timeout w = (out, w1)"
    and "\<forall>rc so se. out \<noteq> Exited rc so se"
  shows "\<exists>ev msg. spawned ev = [(pdflatex_command tex_file, out)] \<and>
           latex_passes os tex_file base_name project_dir timeout runs i (Suc k) w
             = (Inl (CommandExecutionError msg), w1, ev) \<and>
           (msg = py ''Command timed out after '' @ str_int timeout @ py ''s'' @ [10] @
                  py ''Command: '' @ shlex_join (pdflatex_command tex_file)
            \<or> (\<exists>m. msg = py ''Unexpected error: '' @ m))"
proof -
  have n: "pdflatex_command tex_file \<noteq> []" by (simp add: pdflatex_command_def)
  from execute_command_safe_nocheck [OF n assms(1)] obtain ev where
    s: "spawned ev = [(pdflatex_command tex_file, out)]"
    and e: "execute_command_safe os (pdflatex_command tex_file) (Some project_dir) timeout False
              None True w
            = ((case out of
           Exited rc so se \<Rightarrow> Inr \<lparr>returncode = rc, stdout = Some so, stderr = Some se\<rparr>
         | TimedOut \<Rightarrow>
             Inl (CommandExecutionError
                    (py ''Command timed out after '' @ str_int timeout @ py ''s'' @ [10] @
                     py ''Command: '' @ shlex_join (pdflatex_command tex_file)))
         | RunRaised msg \<Rightarrow> Inl (CommandExecutionError (py ''Unexpected error: '' @ msg))),
        w1, ev)"
    by auto
  show ?thesis
  proof (cases out)
    case (Exited rc so se)
    with assms(2) show ?thesis by simp
  next
    case TimedOut
    with e s show ?thesis by (simp add: Let_def)
  next
    case (RunRaised m)
    with e s show ?thesis by (simp add: Let_def)
  qed
qed

lemma latex_passes_ok_step:
  assumes "os_run os (pdflatex_command tex_file) (Some project_dir) None timeout w
             = (Exited 0 so se, w1)"
  shows "\<exists>ev1. spawned ev1 = [(pdflatex_command tex_file, Exited 0 so se)] \<and>
           latex_passes os tex_file base_name project_dir timeout runs i (Suc k) w
             = (case bibtex_step os base_name project_dir i w1 of
                  (Inl err, w2, ev2) \<Rightarrow> (Inl err, w2, ev1 @ ev2)
                | (Inr u, w2, ev2) \<Rightarrow>
                    (case latex_passes os tex_file base_name project_dir timeout runs
                            (Suc i) k w2 of
                       (r, w3, ev3) \<Rightarrow> (r, w3, ev1 @ ev2 @ ev3)))"
proof -
  have n: "pdflatex_command tex_file \<noteq> []" by (simp add: pdflatex_command_def)
  from execute_command_safe_nocheck [OF n assms(1)] obtain ev where
    s: "spawned ev = [(pdflatex_command tex_file, Exited 0 so se)]"
    and e: "execute_command_safe os (pdflatex_command tex_file) (Some project_dir) timeout False
              None True w
            = (Inr \<lparr>returncode = 0, stdout = Some so, stderr = Some se\<rparr>, w1, ev)"
    by auto
  let ?log0 = "Logged INFO (py ''  Run '' @ str_nat (i + 1) @ py ''/'' @ str_int runs @
                   py ''...'')"
  have "spawned (?log0 # ev) = [(pdflatex_command tex_file, Exited 0 so se)]" using s by simp
  moreover have "latex_passes os tex_file base_name project_dir timeout runs i (Suc k) w
             = (case bibtex_step os base_name project_dir i w1 of
                  (Inl err, w2, ev2) \<Rightarrow> (Inl err, w2, (?log0 # ev) @ ev2)
                | (Inr u, w2, ev2) \<Rightarrow>
                    (case latex_passes os tex_file base_name project_dir timeout runs
                            (Suc i) k w2 of
                       (r, w3, ev3) \<Rightarrow> (r, w3, (?log0 # ev) @ ev2 @ ev3)))"
    using e by (simp add: Let_def split: prod.splits sum.splits)
  ultimately show ?thesis by blast
qed



text \<open>After the first pass only \<^verbatim>\<open>pdflatex\<close> is run.\<close>

lemma latex_passes_later_only_pdflatex:
  "0 < i \<Longrightarrow>
   latex_passes os tex_file base_name project_dir timeout runs i k w = (r, w', ev) \<Longrightarrow>
   x \<in> set (spawned ev) \<Longrightarrow> fst x = pdflatex_command tex_file"
proof (induction k arbitrary: i w r w' ev)
  case 0
  then show ?case by simp
next
  case (Suc k)
  obtain out w1 where
    run: "os_run os (pdflatex_command tex_file) (Some project_dir) None timeout w = (out, w1)"
    by (cases "os_run os (pdflatex_command tex_file) (Some project_dir) None timeout w")
  show ?case
  proof (cases "\<exists>so se. out = Exited 0 so se")
    case False
    have "\<exists>ev'. spawned ev' = [(pdflatex_command tex_file, out)] \<and>
            snd (snd (latex_passes os tex_file base_name project_dir timeout runs i (Suc k) w)) = ev'"
    proof (cases out)
      case (Exited rc so se)
      with False have "rc \<noteq> 0" by simp
      from latex_passes_fail_step [OF run [unfolded Exited] this, of base_name runs i k] Exited
      show ?thesis by auto
    next
      case TimedOut
      then have "\<forall>rc so se. out \<noteq> Exited rc so se" by simp
      from latex_passes_abort_step [OF run this, of base_name runs i k] show ?thesis by auto
    next
      case (RunRaised m)
      then have "\<forall>rc so se. out \<noteq> Exited rc so se" by simp
      from latex_passes_abort_step [OF run this, of base_name runs i k] show ?thesis by auto
    qed
    with Suc.prems show ?thesis by auto
  next
    case True
    then obtain so se where o: "out = Exited 0 so se" by blast
    from latex_passes_ok_step [OF run [unfolded o], of base_name runs i k] obtain ev1 where
      s1: "spawned ev1 = [(pdflatex_command tex_file, Exited 0 so se)]"
      and e: "latex_passes os tex_file base_name project_dir timeout runs i (Suc k) w
             = (case bibtex_step os base_name project_dir i w1 of
                  (Inl err, w2, ev2) \<Rightarrow> (Inl err, w2, ev1 @ ev2)
                | (Inr u, w2, ev2) \<Rightarrow>
                    (case latex_passes os tex_file base_name project_dir timeout runs
                            (Suc i) k w2 of
                       (r, w3, ev3) \<Rightarrow> (r, w3, ev1 @ ev2 @ ev3)))"
      by blast
    have b: "bibtex_step os base_name project_dir i w1 = (Inr (), w1, [])"
      using Suc.prems(1) by (rule bibtex_step_later)
    obtain r3 w3 ev3 where
      l: "latex_passes os tex_file base_name project_dir timeout runs (Suc i) k w1 = (r3, w3, ev3)"
      by (cases "latex_passes os tex_file base_name project_dir timeout runs (Suc i) k w1")
    from e b l Suc.prems(2) have ev: "ev = ev1 @ ev3" by simp
    from Suc.prems(3) ev s1 have "x = (pdflatex_command tex_file, Exited 0 so se) \<or> x \<in> set (spawned ev3)"
      by simp
    then show ?thesis
    proof
      assume "x = (pdflatex_command tex_file, Exited 0 so se)"
      then show ?thesis by simp
    next
      assume "x \<in> set (spawned ev3)"
      from Suc.IH [OF _ l this] show ?thesis by simp
    qed
  qed
qed



section \<open>compile_latex_safe\<close>

text \<open>Rejected arguments: nothing is done.\<close>

lemma compile_latex_safe_rejected:
  "\<not> (endswith tex_file (py ''.tex'') \<and> 47 \<notin> set tex_file \<and> 92 \<notin> set tex_file \<and>
      os_is_dir os project_dir w = Inr True \<and>
      os_exists os (joinpath project_dir tex_file) w = Inr True) \<Longrightarrow>
   (\<exists>err. fst (compile_latex_safe os tex_file project_dir timeout runs w) = Inl err) \<and>
   snd (compile_latex_safe os tex_file project_dir timeout runs w) = (w, [])"
  by (auto simp: compile_latex_safe_def split: sum.splits bool.splits)

text \<open>Accepted arguments: the passes, then the test for the PDF file.\<close>

lemma compile_latex_safe_accepted:
  assumes "endswith tex_file (py ''.tex'')" and "47 \<notin> set tex_file" and "92 \<notin> set tex_file"
    and "os_is_dir os project_dir w = Inr True"
    and "os_exists os (joinpath project_dir tex_file) w = Inr True"
    and "latex_passes os tex_file (take (length tex_file - 4) tex_file) project_dir timeout runs
           0 (nat runs) w = (rl, w1, ev)"
  shows "\<exists>tr. spawned tr = spawned ev \<and> set ev \<subseteq> set tr \<and>
     compile_latex_safe os tex_file project_dir timeout runs w =
       ((case rl of
           Inl err \<Rightarrow> Inl err
         | Inr u \<Rightarrow>
             (case os_exists os
                     (joinpath project_dir (take (length tex_file - 4) tex_file @ py ''.pdf''))
                     w1 of
                Inl err \<Rightarrow> Inl err
              | Inr False \<Rightarrow>
                  Inl (CommandExecutionError
                         (pdf_not_created_message
                            (joinpath project_dir
                               (take (length tex_file - 4) tex_file @ py ''.pdf''))))
              | Inr True \<Rightarrow>
                  Inr (joinpath project_dir (take (length tex_file - 4) tex_file @ py ''.pdf'')))),
        w1, tr)"
proof (cases rl)
  case (Inl err)
  with assms show ?thesis by (auto simp: compile_latex_safe_def Let_def)
next
  case (Inr u)
  show ?thesis
  proof (cases "os_exists os
                     (joinpath project_dir (take (length tex_file - 4) tex_file @ py ''.pdf''))
                     w1")
    case (Inl err)
    with Inr assms show ?thesis by (auto simp: compile_latex_safe_def Let_def)
  next
    case (Inr found)
    with \<open>rl = Inr u\<close> assms show ?thesis
      by (cases found) (auto simp: compile_latex_safe_def Let_def)
  qed
qed

lemma compile_latex_safe_spawned:
  assumes "compile_latex_safe os tex_file project_dir timeout runs w = (r, w', tr)"
    and "spawned tr \<noteq> []"
  shows "endswith tex_file (py ''.tex'') \<and> 47 \<notin> set tex_file \<and> 92 \<notin> set tex_file \<and>
      os_is_dir os project_dir w = Inr True \<and>
      os_exists os (joinpath project_dir tex_file) w = Inr True"
proof (rule ccontr)
  assume "\<not> ?thesis"
  from compile_latex_safe_rejected [OF this, of timeout runs] assms show False by simp
qed




text \<open>
  A project \<^verbatim>\<open>/p\<close> with \<^verbatim>\<open>main.tex\<close>, and a \<^verbatim>\<open>pdflatex\<close> that exits with code 1.
\<close>

lemma example_project_accepted:
  "endswith (py ''main.tex'') (py ''.tex'') \<and> 47 \<notin> set (py ''main.tex'') \<and>
   92 \<notin> set (py ''main.tex'') \<and>
   os_is_dir (example_os behave) (path_of (py ''/p'')) (path_of (py ''/p'') # path_of (py ''/p/main.tex'') # fs)
     = Inr True \<and>
   os_exists (example_os behave) (joinpath (path_of (py ''/p'')) (py ''main.tex''))
     (path_of (py ''/p'') # path_of (py ''/p/main.tex'') # fs) = Inr True"
  by (simp add: example_os_def endswith_def eval_path)







lemma bibtex_step_Inl:
  "bibtex_step os base_name project_dir i w = (Inl err, w2, ev2) \<Longrightarrow>
     os_glob os project_dir (py ''*.bib'') w = Inl err"
  by (auto simp: bibtex_step_def split: if_splits sum.splits prod.splits)

text \<open>
  When every pass exits with code zero and the search for \<^verbatim>\<open>*.bib\<close> files (made after the
  first pass only) does not raise, the loop runs all its passes and ends without an error.
\<close>

lemma latex_passes_all_ok_from:
  "latex_passes os tex_file base_name project_dir timeout runs i k w = (r, w', ev) \<Longrightarrow>
   \<forall>x\<in>set (spawned ev). fst x = pdflatex_command tex_file \<longrightarrow> (\<exists>so se. snd x = Exited 0 so se) \<Longrightarrow>
   i = 0 \<longrightarrow> (\<forall>w e. os_glob os project_dir (py ''*.bib'') w \<noteq> Inl e) \<Longrightarrow>
   r = Inr () \<and> length (filter (\<lambda>x. fst x = pdflatex_command tex_file) (spawned ev)) = k"
proof (induction k arbitrary: i w r w' ev)
  case 0
  then show ?case by auto
next
  case (Suc k)
  obtain out w1 where
    run: "os_run os (pdflatex_command tex_file) (Some project_dir) None timeout w = (out, w1)"
    by (cases "os_run os (pdflatex_command tex_file) (Some project_dir) None timeout w")
  have hd: "(pdflatex_command tex_file, out) \<in> set (spawned ev)"
  proof (cases "\<exists>so se. out = Exited 0 so se")
    case True
    then obtain so se where o: "out = Exited 0 so se" by blast
    from latex_passes_ok_step [OF run [unfolded o], of base_name runs i k]
    obtain ev1 where
      s1: "spawned ev1 = [(pdflatex_command tex_file, Exited 0 so se)]"
      and e: "latex_passes os tex_file base_name project_dir timeout runs i (Suc k) w
             = (case bibtex_step os base_name project_dir i w1 of
                  (Inl err, w2, ev2) \<Rightarrow> (Inl err, w2, ev1 @ ev2)
                | (Inr u, w2, ev2) \<Rightarrow>
                    (case latex_passes os tex_file base_name project_dir timeout runs
                            (Suc i) k w2 of
                       (r, w3, ev3) \<Rightarrow> (r, w3, ev1 @ ev2 @ ev3)))"
      by blast
    obtain rb w2 ev2 where b: "bibtex_step os base_name project_dir i w1 = (rb, w2, ev2)"
      by (cases "bibtex_step os base_name project_dir i w1")
    obtain r3 w3 ev3 where
      l: "latex_passes os tex_file base_name project_dir timeout runs (Suc i) k w2 = (r3, w3, ev3)"
      by (cases "latex_passes os tex_file base_name project_dir timeout runs (Suc i) k w2")
    from e b l Suc.prems(1) have "ev = ev1 @ ev2 \<or> ev = ev1 @ ev2 @ ev3"
      by (cases rb) simp_all
    then have "\<exists>rest. spawned ev = spawned ev1 @ rest" by auto
    with s1 o show ?thesis by auto
  next
    case False
    show ?thesis
    proof (cases out)
      case (Exited rc so se)
      with False have "rc \<noteq> 0" by simp
      from latex_passes_fail_step [OF run [unfolded Exited] this, of base_name runs i k]
        Suc.prems(1) Exited
      show ?thesis by auto
    next
      case TimedOut
      then have "\<forall>rc so se. out \<noteq> Exited rc so se" by simp
      from latex_passes_abort_step [OF run this, of base_name runs i k] Suc.prems(1)
      show ?thesis by auto
    next
      case (RunRaised m)
      then have "\<forall>rc so se. out \<noteq> Exited rc so se" by simp
      from latex_passes_abort_step [OF run this, of base_name runs i k] Suc.prems(1)
      show ?thesis by auto
    qed
  qed
  with Suc.prems(2) obtain so se where o: "out = Exited 0 so se" by fastforce
  let ?h = "(pdflatex_command tex_file, Exited 0 so se)"
  from latex_passes_ok_step [OF run [unfolded o], of base_name runs i k]
  obtain ev1 where
    s1: "spawned ev1 = [?h]"
    and e: "latex_passes os tex_file base_name project_dir timeout runs i (Suc k) w
             = (case bibtex_step os base_name project_dir i w1 of
                  (Inl err, w2, ev2) \<Rightarrow> (Inl err, w2, ev1 @ ev2)
                | (Inr u, w2, ev2) \<Rightarrow>
                    (case latex_passes os tex_file base_name project_dir timeout runs
                            (Suc i) k w2 of
                       (r, w3, ev3) \<Rightarrow> (r, w3, ev1 @ ev2 @ ev3)))"
    by blast
  obtain rb w2 ev2 where b: "bibtex_step os base_name project_dir i w1 = (rb, w2, ev2)"
    by (cases "bibtex_step os base_name project_dir i w1")
  have rb: "rb = Inr ()"
  proof (cases rb)
    case (Inl err)
    show ?thesis
    proof (cases "0 < i")
      case True
      from bibtex_step_later [OF True, of os base_name project_dir w1] b Inl show ?thesis
        by simp
    next
      case False
      with bibtex_step_Inl [OF b [unfolded Inl]] Suc.prems(3) show ?thesis by simp
    qed
  next
    case (Inr u)
    then show ?thesis by simp
  qed
  from bibtex_step_spawned [OF b]
  have nb: "\<forall>y\<in>set (spawned ev2). fst y = bibtex_command base_name" by auto
  have c: "filter (\<lambda>x. fst x = pdflatex_command tex_file) (spawned ev2) = []"
    using nb pdflatex_not_bibtex [of tex_file base_name] by (auto simp: filter_empty_conv)
  obtain r3 w3 ev3 where
    l: "latex_passes os tex_file base_name project_dir timeout runs (Suc i) k w2 = (r3, w3, ev3)"
    by (cases "latex_passes os tex_file base_name project_dir timeout runs (Suc i) k w2")
  from e b rb l Suc.prems(1) have ev: "ev = ev1 @ ev2 @ ev3" and r: "r = r3" by simp_all
  have "\<forall>x\<in>set (spawned ev3). fst x = pdflatex_command tex_file \<longrightarrow> (\<exists>so se. snd x = Exited 0 so se)"
    using Suc.prems(2) ev by simp
  moreover have "Suc i = 0 \<longrightarrow> (\<forall>w e. os_glob os project_dir (py ''*.bib'') w \<noteq> Inl e)"
    by simp
  ultimately
  have "r3 = Inr () \<and>
        length (filter (\<lambda>x. fst x = pdflatex_command tex_file) (spawned ev3)) = k"
    by (rule Suc.IH [OF l])
  with r ev s1 c show ?case by simp
qed


text \<open>
  The error for the missing PDF file is none of the errors of \<open>execute_command_safe\<close>, and
  not the error of a failing pass.
\<close>

lemma pdf_not_created_message_hd: "pdf_not_created_message p = 10060 # tl (pdf_not_created_message p)"
  by (simp add: pdf_not_created_message_def)







lemma path_of_p: "path_of (py ''/p'') = Path [47] [py ''p'']"
  by (simp add: eval_path)


lemma path_of_p_main_pdf: "path_of (py ''/p/main.pdf'') = Path [47] [py ''p'', py ''main.pdf'']"
  by (simp add: eval_path)

lemma example_pdf_path:
  "joinpath (path_of (py ''/p'')) (take (length (py ''main.tex'') - 4) (py ''main.tex'') @ py ''.pdf'')
     = path_of (py ''/p/main.pdf'')"
  unfolding path_of_p path_of_p_main_pdf by (simp add: eval_path)





section \<open>The bibtex step of compile_latex_safe\<close>

lemma latex_passes_first_spawn:
  assumes run: "os_run os (pdflatex_command tex_file) (Some project_dir) None timeout w = (out, w1)"
    and l: "latex_passes os tex_file base_name project_dir timeout runs i (Suc k) w = (r, w', ev)"
  shows "\<exists>rest. spawned ev = (pdflatex_command tex_file, out) # rest"
proof (cases "\<exists>so se. out = Exited 0 so se")
  case True
  then obtain so se where o: "out = Exited 0 so se" by blast
  from latex_passes_ok_step [OF run [unfolded o], of base_name runs i k]
  obtain ev1 where
    s1: "spawned ev1 = [(pdflatex_command tex_file, Exited 0 so se)]"
    and e: "latex_passes os tex_file base_name project_dir timeout runs i (Suc k) w
             = (case bibtex_step os base_name project_dir i w1 of
                  (Inl err, w2, ev2) \<Rightarrow> (Inl err, w2, ev1 @ ev2)
                | (Inr u, w2, ev2) \<Rightarrow>
                    (case latex_passes os tex_file base_name project_dir timeout runs
                            (Suc i) k w2 of
                       (r, w3, ev3) \<Rightarrow> (r, w3, ev1 @ ev2 @ ev3)))"
    by blast
  obtain rb w2 ev2 where b: "bibtex_step os base_name project_dir i w1 = (rb, w2, ev2)"
    by (cases "bibtex_step os base_name project_dir i w1")
  obtain r3 w3 ev3 where
    l3: "latex_passes os tex_file base_name project_dir timeout runs (Suc i) k w2 = (r3, w3, ev3)"
    by (cases "latex_passes os tex_file base_name project_dir timeout runs (Suc i) k w2")
  from e b l3 l have "ev = ev1 @ ev2 \<or> ev = ev1 @ ev2 @ ev3"
    by (cases rb) simp_all
  then have "\<exists>rest. spawned ev = spawned ev1 @ rest" by auto
  with s1 o show ?thesis by auto
next
  case False
  show ?thesis
  proof (cases out)
    case (Exited rc so se)
    with False have "rc \<noteq> 0" by simp
    from latex_passes_fail_step [OF run [unfolded Exited] this, of base_name runs i k] l Exited
    show ?thesis by auto
  next
    case TimedOut
    then have "\<forall>rc so se. out \<noteq> Exited rc so se" by simp
    from latex_passes_abort_step [OF run this, of base_name runs i k] l show ?thesis by auto
  next
    case (RunRaised m)
    then have "\<forall>rc so se. out \<noteq> Exited rc so se" by simp
    from latex_passes_abort_step [OF run this, of base_name runs i k] l show ?thesis by auto
  qed
qed

text \<open>
  The loop from the first pass, when that pass exits with code zero and there is a
  \<^verbatim>\<open>*.bib\<close> file: \<^verbatim>\<open>bibtex\<close> is the second process, and whatever it does the loop goes on
  with the second pass, in the world \<^verbatim>\<open>bibtex\<close> left.
\<close>

lemma latex_passes_with_bibtex:
  assumes run: "os_run os (pdflatex_command tex_file) (Some project_dir) None timeout w
                  = (Exited 0 so se, w1)"
    and g: "os_glob os project_dir (py ''*.bib'') w1 = Inr bs" and bs: "bs \<noteq> []"
    and rb: "os_run os (bibtex_command base_name) (Some project_dir) None 30 w1 = (ob, w2)"
    and l3: "latex_passes os tex_file base_name project_dir timeout runs (Suc 0) k w2
               = (r3, w3, ev3)"
  shows "\<exists>ev. spawned ev = (pdflatex_command tex_file, Exited 0 so se)
                   # (bibtex_command base_name, ob) # spawned ev3 \<and>
           latex_passes os tex_file base_name project_dir timeout runs 0 (Suc k) w = (r3, w3, ev)"
proof -
  from latex_passes_ok_step [OF run, of base_name runs 0 k]
  obtain ev1 where
    s1: "spawned ev1 = [(pdflatex_command tex_file, Exited 0 so se)]"
    and e: "latex_passes os tex_file base_name project_dir timeout runs 0 (Suc k) w
             = (case bibtex_step os base_name project_dir 0 w1 of
                  (Inl err, w2, ev2) \<Rightarrow> (Inl err, w2, ev1 @ ev2)
                | (Inr u, w2, ev2) \<Rightarrow>
                    (case latex_passes os tex_file base_name project_dir timeout runs
                            (Suc 0) k w2 of
                       (r, w3, ev3) \<Rightarrow> (r, w3, ev1 @ ev2 @ ev3)))"
    by blast
  from bibtex_step_runs [OF g bs rb] obtain ev2 where
    s2: "spawned ev2 = [(bibtex_command base_name, ob)]"
    and b: "bibtex_step os base_name project_dir 0 w1 = (Inr (), w2, ev2)"
    by blast
  from e b l3 have "latex_passes os tex_file base_name project_dir timeout runs 0 (Suc k) w
      = (r3, w3, ev1 @ ev2 @ ev3)" by simp
  moreover have "spawned (ev1 @ ev2 @ ev3) = (pdflatex_command tex_file, Exited 0 so se)
                   # (bibtex_command base_name, ob) # spawned ev3"
    using s1 s2 by simp
  ultimately show ?thesis by blast
qed

text \<open>
  In the loop from the first pass, a \<^verbatim>\<open>bibtex\<close> process is the second process, after a first
  pass that exited with code zero, with a \<^verbatim>\<open>*.bib\<close> file in the project directory.
\<close>

lemma latex_passes_bibtex_position:
  assumes l: "latex_passes os tex_file base_name project_dir timeout runs 0 k w = (r, w', ev)"
    and j: "j < length (spawned ev)"
    and f: "fst (spawned ev ! j) = bibtex_command base_name"
  shows "j = 1 \<and>
     (\<exists>so se w1 bs.
        os_run os (pdflatex_command tex_file) (Some project_dir) None timeout w
          = (Exited 0 so se, w1) \<and>
        spawned ev ! 0 = (pdflatex_command tex_file, Exited 0 so se) \<and>
        os_glob os project_dir (py ''*.bib'') w1 = Inr bs \<and> bs \<noteq> [])"
proof (cases k)
  case 0
  with l j show ?thesis by simp
next
  case (Suc k')
  note pb = pdflatex_not_bibtex [of tex_file base_name]
  obtain out w1 where
    run: "os_run os (pdflatex_command tex_file) (Some project_dir) None timeout w = (out, w1)"
    by (cases "os_run os (pdflatex_command tex_file) (Some project_dir) None timeout w")
  show ?thesis
  proof (cases "\<exists>so se. out = Exited 0 so se")
    case False
    have "spawned ev = [(pdflatex_command tex_file, out)]"
    proof (cases out)
      case (Exited rc so se)
      with False have "rc \<noteq> 0" by simp
      from latex_passes_fail_step [OF run [unfolded Exited] this, of base_name runs 0 k'] l
        Exited Suc
      show ?thesis by auto
    next
      case TimedOut
      then have "\<forall>rc so se. out \<noteq> Exited rc so se" by simp
      from latex_passes_abort_step [OF run this, of base_name runs 0 k'] l Suc
      show ?thesis by auto
    next
      case (RunRaised m)
      then have "\<forall>rc so se. out \<noteq> Exited rc so se" by simp
      from latex_passes_abort_step [OF run this, of base_name runs 0 k'] l Suc
      show ?thesis by auto
    qed
    with j f pb show ?thesis by simp
  next
    case True
    then obtain so se where o: "out = Exited 0 so se" by blast
    let ?h = "(pdflatex_command tex_file, Exited 0 so se)"
    from latex_passes_ok_step [OF run [unfolded o], of base_name runs 0 k']
    obtain ev1 where
      s1: "spawned ev1 = [?h]"
      and e: "latex_passes os tex_file base_name project_dir timeout runs 0 (Suc k') w
             = (case bibtex_step os base_name project_dir 0 w1 of
                  (Inl err, w2, ev2) \<Rightarrow> (Inl err, w2, ev1 @ ev2)
                | (Inr u, w2, ev2) \<Rightarrow>
                    (case latex_passes os tex_file base_name project_dir timeout runs
                            (Suc 0) k' w2 of
                       (r, w3, ev3) \<Rightarrow> (r, w3, ev1 @ ev2 @ ev3)))"
      by blast
    obtain rb w2 ev2 where b: "bibtex_step os base_name project_dir 0 w1 = (rb, w2, ev2)"
      by (cases "bibtex_step os base_name project_dir 0 w1")
    obtain r3 w3 ev3 where
      l3: "latex_passes os tex_file base_name project_dir timeout runs (Suc 0) k' w2
             = (r3, w3, ev3)"
      by (cases "latex_passes os tex_file base_name project_dir timeout runs (Suc 0) k' w2")
    have p3: "\<forall>x\<in>set (spawned ev3). fst x = pdflatex_command tex_file"
      using latex_passes_later_only_pdflatex [OF _ l3] by simp
    from e b l3 l Suc have "ev = ev1 @ ev2 \<or> ev = ev1 @ ev2 @ ev3"
      by (cases rb) simp_all
    then obtain rest where
      ev: "spawned ev = ?h # spawned ev2 @ rest"
      and rest: "\<forall>x\<in>set rest. fst x = pdflatex_command tex_file"
    proof
      assume "ev = ev1 @ ev2"
      then have "spawned ev = ?h # spawned ev2 @ []" using s1 by simp
      then show ?thesis using that [of "[]"] by simp
    next
      assume "ev = ev1 @ ev2 @ ev3"
      then have "spawned ev = ?h # spawned ev2 @ spawned ev3" using s1 by simp
      then show ?thesis using that [of "spawned ev3"] p3 by simp
    qed
    from bibtex_step_spawned [OF b]
    show ?thesis
    proof
      assume n: "spawned ev2 = []"
      with ev rest have "\<forall>x\<in>set (spawned ev). fst x = pdflatex_command tex_file" by simp
      with j have "fst (spawned ev ! j) = pdflatex_command tex_file" by (meson nth_mem)
      with f pb show ?thesis by simp
    next
      assume a: "0 = 0 \<and> rb = Inr () \<and>
          (\<exists>bs. os_glob os project_dir (py ''*.bib'') w1 = Inr bs \<and> bs \<noteq> []) \<and>
          spawned ev2 = [(bibtex_command base_name,
                          fst (os_run os (bibtex_command base_name) (Some project_dir) None 30 w1))] \<and>
          w2 = snd (os_run os (bibtex_command base_name) (Some project_dir) None 30 w1)"
      let ?b = "(bibtex_command base_name,
                 fst (os_run os (bibtex_command base_name) (Some project_dir) None 30 w1))"
      from a ev have ev': "spawned ev = ?h # ?b # rest" by simp
      have j1: "j = 1"
      proof (rule ccontr)
        assume n1: "j \<noteq> 1"
        show False
        proof (cases j)
          case 0
          with ev' f pb show False by simp
        next
          case (Suc j')
          with n1 obtain j'' where j'': "j' = Suc j''" by (cases j') auto
          with Suc ev' j have "j'' < length rest" and "spawned ev ! j = rest ! j''" by simp_all
          with rest have "fst (spawned ev ! j) = pdflatex_command tex_file" by (metis nth_mem)
          with f pb show False by simp
        qed
      qed
      from ev' have "spawned ev ! 0 = ?h" by simp
      with j1 run o a show ?thesis by blast
    qed
  qed
qed


lemma latex_passes_last_ok:
  assumes i: "0 < i"
    and run: "os_run os (pdflatex_command tex_file) (Some project_dir) None timeout w
                  = (Exited 0 so se, w1)"
  shows "\<exists>ev. spawned ev = [(pdflatex_command tex_file, Exited 0 so se)] \<and>
           latex_passes os tex_file base_name project_dir timeout runs i (Suc 0) w
             = (Inr (), w1, ev)"
proof -
  from latex_passes_ok_step [OF run, of base_name runs i 0] obtain ev1 where
    s1: "spawned ev1 = [(pdflatex_command tex_file, Exited 0 so se)]"
    and e: "latex_passes os tex_file base_name project_dir timeout runs i (Suc 0) w
             = (case bibtex_step os base_name project_dir i w1 of
                  (Inl err, w2, ev2) \<Rightarrow> (Inl err, w2, ev1 @ ev2)
                | (Inr u, w2, ev2) \<Rightarrow>
                    (case latex_passes os tex_file base_name project_dir timeout runs
                            (Suc i) 0 w2 of
                       (r, w3, ev3) \<Rightarrow> (r, w3, ev1 @ ev2 @ ev3)))"
    by blast
  from e bibtex_step_later [OF i, of os base_name project_dir w1] s1 show ?thesis by simp
qed

lemma filter_all: "\<forall>x\<in>set xs. P x \<Longrightarrow> filter P xs = xs"
  by (induction xs) auto

text \<open>
  Claim C4. In a call of \<open>compile_latex_safe\<close>, a \<^verbatim>\<open>bibtex\<close> process is the second process
  of the call and no other, the first pass before it exited with code zero, and the search
  after that pass found a \<^verbatim>\<open>*.bib\<close> file in the project directory. When the arguments are
  accepted, the first pass exits with code zero and there is a \<^verbatim>\<open>*.bib\<close> file, \<^verbatim>\<open>bibtex\<close> is
  run once, as the second process, and for every outcome of it (any exit code, a timeout,
  any other error) the call goes on with the remaining passes, from the world \<^verbatim>\<open>bibtex\<close>
  left: only \<^verbatim>\<open>pdflatex\<close> is run after it, at least once when \<^verbatim>\<open>runs\<close> is two or more; when
  those passes exit with code zero all of them are run, and the result of the call is that
  of the remaining passes or, after them, of the test for the PDF file.
\<close>

theorem bibtex_once_and_swallowed:
  assumes c: "compile_latex_safe os tex_file project_dir timeout runs w = (r, w', tr)"
  shows
   "(\<forall>j. j < length (spawned tr) \<and>
         fst (spawned tr ! j) = bibtex_command (take (length tex_file - 4) tex_file) \<longrightarrow>
         j = 1 \<and>
         (\<exists>so se w1 bs.
            os_run os (pdflatex_command tex_file) (Some project_dir) None timeout w
              = (Exited 0 so se, w1) \<and>
            spawned tr ! 0 = (pdflatex_command tex_file, Exited 0 so se) \<and>
            os_glob os project_dir (py ''*.bib'') w1 = Inr bs \<and> bs \<noteq> []))
    \<and> (endswith tex_file (py ''.tex'') \<and> 47 \<notin> set tex_file \<and> 92 \<notin> set tex_file \<and>
        os_is_dir os project_dir w = Inr True \<and>
        os_exists os (joinpath project_dir tex_file) w = Inr True \<and> 0 < runs \<and>
        os_run os (pdflatex_command tex_file) (Some project_dir) None timeout w
          = (Exited 0 so se, w1) \<and>
        os_glob os project_dir (py ''*.bib'') w1 = Inr bs \<and> bs \<noteq> [] \<and>
        os_run os (bibtex_command (take (length tex_file - 4) tex_file)) (Some project_dir) None
          30 w1 = (ob, w2) \<and>
        latex_passes os tex_file (take (length tex_file - 4) tex_file) project_dir timeout runs
          (Suc 0) (nat runs - 1) w2 = (r3, w3, ev3)
       \<longrightarrow> spawned tr = (pdflatex_command tex_file, Exited 0 so se)
                          # (bibtex_command (take (length tex_file - 4) tex_file), ob)
                          # spawned ev3 \<and>
           (\<forall>x\<in>set (spawned ev3). fst x = pdflatex_command tex_file) \<and>
           (2 \<le> runs \<longrightarrow> spawned ev3 \<noteq> []) \<and>
           ((\<forall>x\<in>set (spawned ev3). \<exists>so se. snd x = Exited 0 so se)
              \<longrightarrow> r3 = Inr () \<and> length (spawned ev3) = nat runs - 1) \<and>
           w' = w3 \<and>
           r = (case r3 of
                  Inl err \<Rightarrow> Inl err
                | Inr u \<Rightarrow>
                    (case os_exists os
                            (joinpath project_dir
                               (take (length tex_file - 4) tex_file @ py ''.pdf'')) w3 of
                       Inl err \<Rightarrow> Inl err
                     | Inr False \<Rightarrow>
                         Inl (CommandExecutionError
                                (pdf_not_created_message
                                   (joinpath project_dir
                                      (take (length tex_file - 4) tex_file @ py ''.pdf''))))
                     | Inr True \<Rightarrow>
                         Inr (joinpath project_dir
                                (take (length tex_file - 4) tex_file @ py ''.pdf'')))))"
proof (rule conjI)
  let ?base = "take (length tex_file - 4) tex_file"
  show "\<forall>j. j < length (spawned tr) \<and> fst (spawned tr ! j) = bibtex_command ?base \<longrightarrow>
         j = 1 \<and>
         (\<exists>so se w1 bs.
            os_run os (pdflatex_command tex_file) (Some project_dir) None timeout w
              = (Exited 0 so se, w1) \<and>
            spawned tr ! 0 = (pdflatex_command tex_file, Exited 0 so se) \<and>
            os_glob os project_dir (py ''*.bib'') w1 = Inr bs \<and> bs \<noteq> [])"
  proof (intro allI impI)
    fix j
    assume h: "j < length (spawned tr) \<and> fst (spawned tr ! j) = bibtex_command ?base"
    then have "spawned tr \<noteq> []" by auto
    from compile_latex_safe_spawned [OF c this]
    have v: "endswith tex_file (py ''.tex'')" "47 \<notin> set tex_file" "92 \<notin> set tex_file"
      "os_is_dir os project_dir w = Inr True"
      "os_exists os (joinpath project_dir tex_file) w = Inr True"
      by simp_all
    obtain rl wl ev where
      l: "latex_passes os tex_file ?base project_dir timeout runs 0 (nat runs) w = (rl, wl, ev)"
      by (cases "latex_passes os tex_file ?base project_dir timeout runs 0 (nat runs) w")
    from compile_latex_safe_accepted [OF v l] c have sp: "spawned tr = spawned ev" by auto
    from h sp have j: "j < length (spawned ev)"
      and f: "fst (spawned ev ! j) = bibtex_command ?base" by simp_all
    from latex_passes_bibtex_position [OF l j f] sp
    show "j = 1 \<and>
         (\<exists>so se w1 bs.
            os_run os (pdflatex_command tex_file) (Some project_dir) None timeout w
              = (Exited 0 so se, w1) \<and>
            spawned tr ! 0 = (pdflatex_command tex_file, Exited 0 so se) \<and>
            os_glob os project_dir (py ''*.bib'') w1 = Inr bs \<and> bs \<noteq> [])"
      by simp
  qed
next
  let ?base = "take (length tex_file - 4) tex_file"
  let ?pdf = "joinpath project_dir (?base @ py ''.pdf'')"
  show "endswith tex_file (py ''.tex'') \<and> 47 \<notin> set tex_file \<and> 92 \<notin> set tex_file \<and>
        os_is_dir os project_dir w = Inr True \<and>
        os_exists os (joinpath project_dir tex_file) w = Inr True \<and> 0 < runs \<and>
        os_run os (pdflatex_command tex_file) (Some project_dir) None timeout w
          = (Exited 0 so se, w1) \<and>
        os_glob os project_dir (py ''*.bib'') w1 = Inr bs \<and> bs \<noteq> [] \<and>
        os_run os (bibtex_command ?base) (Some project_dir) None 30 w1 = (ob, w2) \<and>
        latex_passes os tex_file ?base project_dir timeout runs (Suc 0) (nat runs - 1) w2
          = (r3, w3, ev3)
       \<longrightarrow> spawned tr = (pdflatex_command tex_file, Exited 0 so se)
                          # (bibtex_command ?base, ob) # spawned ev3 \<and>
           (\<forall>x\<in>set (spawned ev3). fst x = pdflatex_command tex_file) \<and>
           (2 \<le> runs \<longrightarrow> spawned ev3 \<noteq> []) \<and>
           ((\<forall>x\<in>set (spawned ev3). \<exists>so se. snd x = Exited 0 so se)
              \<longrightarrow> r3 = Inr () \<and> length (spawned ev3) = nat runs - 1) \<and>
           w' = w3 \<and>
           r = (case r3 of
                  Inl err \<Rightarrow> Inl err
                | Inr u \<Rightarrow>
                    (case os_exists os ?pdf w3 of
                       Inl err \<Rightarrow> Inl err
                     | Inr False \<Rightarrow> Inl (CommandExecutionError (pdf_not_created_message ?pdf))
                     | Inr True \<Rightarrow> Inr ?pdf))"
  proof (rule impI)
    assume h: "endswith tex_file (py ''.tex'') \<and> 47 \<notin> set tex_file \<and> 92 \<notin> set tex_file \<and>
        os_is_dir os project_dir w = Inr True \<and>
        os_exists os (joinpath project_dir tex_file) w = Inr True \<and> 0 < runs \<and>
        os_run os (pdflatex_command tex_file) (Some project_dir) None timeout w
          = (Exited 0 so se, w1) \<and>
        os_glob os project_dir (py ''*.bib'') w1 = Inr bs \<and> bs \<noteq> [] \<and>
        os_run os (bibtex_command ?base) (Some project_dir) None 30 w1 = (ob, w2) \<and>
        latex_passes os tex_file ?base project_dir timeout runs (Suc 0) (nat runs - 1) w2
          = (r3, w3, ev3)"
    then have v: "endswith tex_file (py ''.tex'')" "47 \<notin> set tex_file" "92 \<notin> set tex_file"
      "os_is_dir os project_dir w = Inr True"
      "os_exists os (joinpath project_dir tex_file) w = Inr True"
      and runs: "0 < runs"
      and run: "os_run os (pdflatex_command tex_file) (Some project_dir) None timeout w
          = (Exited 0 so se, w1)"
      and g: "os_glob os project_dir (py ''*.bib'') w1 = Inr bs" and bs: "bs \<noteq> []"
      and rb: "os_run os (bibtex_command ?base) (Some project_dir) None 30 w1 = (ob, w2)"
      and l3: "latex_passes os tex_file ?base project_dir timeout runs (Suc 0) (nat runs - 1) w2
          = (r3, w3, ev3)"
      by simp_all
    from runs have k: "nat runs = Suc (nat runs - 1)" by simp
    from latex_passes_with_bibtex [OF run g bs rb l3] obtain ev where
      s: "spawned ev = (pdflatex_command tex_file, Exited 0 so se)
                   # (bibtex_command ?base, ob) # spawned ev3"
      and l: "latex_passes os tex_file ?base project_dir timeout runs 0 (Suc (nat runs - 1)) w
                = (r3, w3, ev)"
      by blast
    from l k have l': "latex_passes os tex_file ?base project_dir timeout runs 0 (nat runs) w
                = (r3, w3, ev)" by simp
    from compile_latex_safe_accepted [OF v l'] c s
    have c1: "spawned tr = (pdflatex_command tex_file, Exited 0 so se)
                   # (bibtex_command ?base, ob) # spawned ev3"
      and c5: "w' = w3"
      and c6: "r = (case r3 of
                  Inl err \<Rightarrow> Inl err
                | Inr u \<Rightarrow>
                    (case os_exists os ?pdf w3 of
                       Inl err \<Rightarrow> Inl err
                     | Inr False \<Rightarrow> Inl (CommandExecutionError (pdf_not_created_message ?pdf))
                     | Inr True \<Rightarrow> Inr ?pdf))"
      by auto
    have c2: "\<forall>x\<in>set (spawned ev3). fst x = pdflatex_command tex_file"
      using latex_passes_later_only_pdflatex [OF _ l3] by simp
    have c3: "2 \<le> runs \<longrightarrow> spawned ev3 \<noteq> []"
    proof
      assume "2 \<le> runs"
      then obtain k' where k': "nat runs - 1 = Suc k'" by (cases "nat runs - 1") auto
      obtain out wx where
        "os_run os (pdflatex_command tex_file) (Some project_dir) None timeout w2 = (out, wx)"
        by (cases "os_run os (pdflatex_command tex_file) (Some project_dir) None timeout w2")
      from latex_passes_first_spawn [OF this l3 [unfolded k']] show "spawned ev3 \<noteq> []" by auto
    qed
    have c4: "(\<forall>x\<in>set (spawned ev3). \<exists>so se. snd x = Exited 0 so se)
              \<longrightarrow> r3 = Inr () \<and> length (spawned ev3) = nat runs - 1"
    proof
      assume a: "\<forall>x\<in>set (spawned ev3). \<exists>so se. snd x = Exited 0 so se"
      then have a': "\<forall>x\<in>set (spawned ev3). fst x = pdflatex_command tex_file
                       \<longrightarrow> (\<exists>so se. snd x = Exited 0 so se)" by simp
      have "Suc 0 = 0 \<longrightarrow> (\<forall>w e. os_glob os project_dir (py ''*.bib'') w \<noteq> Inl e)" by simp
      from latex_passes_all_ok_from [OF l3 a' this]
      have "r3 = Inr ()"
        and "length (filter (\<lambda>x. fst x = pdflatex_command tex_file) (spawned ev3)) = nat runs - 1"
        by simp_all
      with filter_all [of "spawned ev3" "\<lambda>x. fst x = pdflatex_command tex_file"] c2
      show "r3 = Inr () \<and> length (spawned ev3) = nat runs - 1" by simp
    qed
    from c1 c2 c3 c4 c5 c6
    show "spawned tr = (pdflatex_command tex_file, Exited 0 so se)
                          # (bibtex_command ?base, ob) # spawned ev3 \<and>
           (\<forall>x\<in>set (spawned ev3). fst x = pdflatex_command tex_file) \<and>
           (2 \<le> runs \<longrightarrow> spawned ev3 \<noteq> []) \<and>
           ((\<forall>x\<in>set (spawned ev3). \<exists>so se. snd x = Exited 0 so se)
              \<longrightarrow> r3 = Inr () \<and> length (spawned ev3) = nat runs - 1) \<and>
           w' = w3 \<and>
           r = (case r3 of
                  Inl err \<Rightarrow> Inl err
                | Inr u \<Rightarrow>
                    (case os_exists os ?pdf w3 of
                       Inl err \<Rightarrow> Inl err
                     | Inr False \<Rightarrow> Inl (CommandExecutionError (pdf_not_created_message ?pdf))
                     | Inr True \<Rightarrow> Inr ?pdf))"
      by blast
  qed
qed

theorem bibtex_once_and_swallowed_witness:
  "spawned (snd (snd (compile_latex_safe
       (example_os (\<lambda>argv w. if hd argv = py ''bibtex''
                                 then (Exited 2 (py ''no database'') [], w)
                                 else (Exited 0 [] [], path_of (py ''/p/main.pdf'') # w)))
       (py ''main.tex'') (path_of (py ''/p'')) 120 2
       [path_of (py ''/p''), path_of (py ''/p/main.tex''), path_of (py ''/p/refs.bib'')])))
     = [(pdflatex_command (py ''main.tex''), Exited 0 [] []),
        (bibtex_command (py ''main''), Exited 2 (py ''no database'') []),
        (pdflatex_command (py ''main.tex''), Exited 0 [] [])]
   \<and> fst (compile_latex_safe
       (example_os (\<lambda>argv w. if hd argv = py ''bibtex''
                                 then (Exited 2 (py ''no database'') [], w)
                                 else (Exited 0 [] [], path_of (py ''/p/main.pdf'') # w)))
       (py ''main.tex'') (path_of (py ''/p'')) 120 2
       [path_of (py ''/p''), path_of (py ''/p/main.tex''), path_of (py ''/p/refs.bib'')])
     = Inr (path_of (py ''/p/main.pdf''))"
proof -
  let ?beh = "\<lambda>argv w. if hd argv = py ''bibtex''
                           then (Exited 2 (py ''no database'') [], w)
                           else (Exited 0 [] [], path_of (py ''/p/main.pdf'') # w)"
  let ?os = "example_os ?beh"
  let ?tex = "py ''main.tex''"
  let ?dir = "path_of (py ''/p'')"
  let ?pdf = "path_of (py ''/p/main.pdf'')"
  let ?w = "[path_of (py ''/p''), path_of (py ''/p/main.tex''), path_of (py ''/p/refs.bib'')]"
  let ?c = "compile_latex_safe ?os ?tex ?dir 120 2 ?w"
  have base: "take (length ?tex - 4) ?tex = py ''main''" by (simp add: py_def)
  note a = example_project_accepted [of ?beh "[path_of (py ''/p/refs.bib'')]"]
  have run1: "os_run ?os (pdflatex_command ?tex) (Some ?dir) None 120 ?w
                = (Exited 0 [] [], ?pdf # ?w)"
    by (simp add: example_os_def pdflatex_command_def py_def)
  have g: "os_glob ?os ?dir (py ''*.bib'') (?pdf # ?w) = Inr [path_of (py ''/p/refs.bib'')]"
    by (simp add: example_os_def parent_def endswith_def eval_path)
  have bs: "[path_of (py ''/p/refs.bib'')] \<noteq> []" by simp
  have rb: "os_run ?os (bibtex_command (take (length ?tex - 4) ?tex)) (Some ?dir) None 30 (?pdf # ?w)
              = (Exited 2 (py ''no database'') [], ?pdf # ?w)"
    by (simp add: example_os_def bibtex_command_def)
  have run2: "os_run ?os (pdflatex_command ?tex) (Some ?dir) None 120 (?pdf # ?w)
                = (Exited 0 [] [], ?pdf # ?pdf # ?w)"
    by (simp add: example_os_def pdflatex_command_def py_def)
  have "(0::nat) < Suc 0" by simp
  from latex_passes_last_ok [OF this run2, of "take (length ?tex - 4) ?tex" 2]
  obtain ev3 where
    s3: "spawned ev3 = [(pdflatex_command ?tex, Exited 0 [] [])]"
    and l3: "latex_passes ?os ?tex (take (length ?tex - 4) ?tex) ?dir 120 2 (Suc 0) (nat 2 - 1)
               (?pdf # ?w) = (Inr (), ?pdf # ?pdf # ?w, ev3)"
    by auto
  have e: "os_exists ?os (joinpath ?dir (take (length ?tex - 4) ?tex @ py ''.pdf''))
             (?pdf # ?pdf # ?w) = Inr True"
    unfolding example_pdf_path by (simp add: example_os_def)
  have c: "?c = (fst ?c, fst (snd ?c), snd (snd ?c))" by simp
  have "(0::int) < 2" by simp
  note T = bibtex_once_and_swallowed [OF c, THEN conjunct2, rule_format,
      OF conjI [OF a [THEN conjunct1] conjI [OF a [THEN conjunct2, THEN conjunct1]
        conjI [OF a [THEN conjunct2, THEN conjunct2, THEN conjunct1]
        conjI [OF a [THEN conjunct2, THEN conjunct2, THEN conjunct2, THEN conjunct1]
        conjI [OF a [THEN conjunct2, THEN conjunct2, THEN conjunct2, THEN conjunct2]
        conjI [OF \<open>(0::int) < 2\<close> conjI [OF run1 conjI [OF g conjI [OF bs conjI [OF rb l3]]]]]]]]]]]
  from T have "spawned (snd (snd ?c))
      = (pdflatex_command ?tex, Exited 0 [] [])
        # (bibtex_command (take (length ?tex - 4) ?tex), Exited 2 (py ''no database'') [])
        # spawned ev3"
    by blast
  with s3 base have r1: "spawned (snd (snd ?c))
      = [(pdflatex_command ?tex, Exited 0 [] []),
         (bibtex_command (py ''main''), Exited 2 (py ''no database'') []),
         (pdflatex_command ?tex, Exited 0 [] [])]"
    by simp
  from T have "fst ?c = (case Inr () :: py_exception + unit of
                  Inl err \<Rightarrow> Inl err
                | Inr u \<Rightarrow>
                    (case os_exists ?os
                            (joinpath ?dir (take (length ?tex - 4) ?tex @ py ''.pdf''))
                            (?pdf # ?pdf # ?w) of
                       Inl err \<Rightarrow> Inl err
                     | Inr False \<Rightarrow>
                         Inl (CommandExecutionError
                                (pdf_not_created_message
                                   (joinpath ?dir (take (length ?tex - 4) ?tex @ py ''.pdf''))))
                     | Inr True \<Rightarrow>
                         Inr (joinpath ?dir (take (length ?tex - 4) ?tex @ py ''.pdf''))))"
    by blast
  then have "fst ?c = Inr (joinpath ?dir (take (length ?tex - 4) ?tex @ py ''.pdf''))"
    unfolding e by simp
  then have r2: "fst ?c = Inr ?pdf" unfolding example_pdf_path .
  from r1 r2 show ?thesis by simp
qed

end
